theory Spec2Isabelle
  imports Main "HOL-Library.Word"
begin

unbundle bit_operations_syntax

section \<open>Data model of the task subsystem (rtos/sys/task/task.c)\<close>

text \<open>
  Pointers of the 32-bit target are 32-bit words; the null pointer is 0. A task handle
  is the address of its task control block.
\<close>

type_synonym addr = "32 word"

datatype task_state_t = TASK_EXITED | TASK_BLOCKED | TASK_READY | TASK_ACTIVE

text \<open>
  The enum block_reason_t is declared in task.h, which is not among the sources; task.c
  only names its enumerator BLOCK_NONE. The other enumerators are numbered.
\<close>

datatype block_reason_t = BLOCK_NONE | BLOCK_CAUSE nat

text \<open>
  struct task_status. The field list_state (the intrusive list node) is represented by
  the membership of the handle in the lists below.
\<close>

record task_status =
  stack_ptr :: addr
  stack_start :: addr
  stack_end :: addr
  entry :: addr
  arg :: addr
  state :: task_state_t
  name :: string
  stack_allocated :: bool
  blockcause :: block_reason_t
  priority :: "32 word"

text \<open>
  struct task_config (task.h, not among the sources), with the fields task.c reads.
  A null task_name is None.
\<close>

record task_config =
  task_stack :: addr
  task_stacksize :: "32 word"
  task_name :: "string option"
  task_priority :: "32 word"

text \<open>
  The list primitive (util/list/list.h and its implementation) is not among the sources.
  A list handle is the sequence of the handles it chains, first entry first; the null
  handle is the empty sequence.
\<close>

type_synonym list_t = "addr list"

text \<open>
  Modelled from the spec: list_append of the list primitive, missing from the sources.
  Section 4.A: append(list, item, node) returns the updated list handle; the lists are
  FIFO, so the item goes to the tail.
\<close>

definition list_append :: "list_t \<Rightarrow> addr \<Rightarrow> list_t" where
  "list_append l item = l @ [item]"

text \<open>
  Modelled from the spec: list_remove of the list primitive, missing from the sources.
  Section 4.A: remove(list, node) returns the updated list handle.
\<close>

definition list_remove :: "list_t \<Rightarrow> addr \<Rightarrow> list_t" where
  "list_remove l item = remove1 item l"

text \<open>
  Modelled from the spec: list_get_head of the list primitive, missing from the sources.
  Section 4.A: head(list) returns the first item without removing it.
\<close>

definition list_get_head :: "list_t \<Rightarrow> addr" where
  "list_get_head l = (case l of [] \<Rightarrow> 0 | x # _ \<Rightarrow> x)"

text \<open>What the code hands to its collaborators: log lines and the svc instruction.\<close>

datatype log_level = LOG_DEBUG | LOG_INFO | LOG_WARNING | LOG_ERROR

datatype event = Log log_level string string | SVCall

text \<open>Error codes of sys/err.h (not among the sources) that task.c passes to exit.\<close>

datatype syserr_t = ERR_BADPARAM | ERR_SCHEDULER

text \<open>
  The globals of task.c, the heap blocks it owns (control blocks with their contents, and
  the stack blocks obtained from malloc), the memory the stack initializer writes, and the
  system registers it touches.
\<close>

record sched_state =
  active_task :: addr
  ready_tasks :: "list_t list"
  blocked_tasks :: list_t
  exited_tasks :: list_t
  tcbs :: "addr \<rightharpoonup> task_status"
  stacks :: "addr set"
  mem :: "addr \<Rightarrow> 32 word"
  SCB_ICSR :: "32 word"
  SysTick_LOAD :: "32 word"
  SysTick_CTRL :: "32 word"
  trace :: "event list"

text \<open>
  Compile-time constants and addresses that task.c takes from headers that are not among
  the sources (task.h, the device header) are parameters.
\<close>

record rtos_config =
  RTOS_PRIORITY_COUNT :: nat
  DEFAULT_PRIORITY :: "32 word"
  DEFAULT_STACKSIZE :: "32 word"
  IDLE_TASK_PRIORITY :: "32 word"
  IDLE_TASK_STACK_SIZE :: "32 word"
  DEFAULT_TASK_CONFIG :: task_config
  SYSTICK_FREQ :: "32 word"
  SysTick_CTRL_TICKINT_Msk :: "32 word"
  SysTick_CTRL_ENABLE_Msk :: "32 word"
  SCB_ICSR_PENDSVSET_Msk :: "32 word"
  task_exithandler :: addr
  idle_entry :: addr

text \<open>Undefined behaviour of the C program is a fault of the model.\<close>

datatype fault = NullDeref | DanglingPointer | OutOfBounds | InvalidFree | DivByZero

definition TAG :: string where
  "TAG = ''task.c''"

definition IDLE_TASK_NAME :: string where
  "IDLE_TASK_NAME = ''Idle Task''"

definition INITIAL_xPSR :: "32 word" where
  "INITIAL_xPSR = 0x01000000"

definition INITIAL_EXEC_RETURN :: "32 word" where
  "INITIAL_EXEC_RETURN = 0xFFFFFFFD"

text \<open>
  Modelled from the spec: SysTick_LOAD_RELOAD_Msk (device header, not among the sources),
  the 24-bit limit of the tick reload value (section 7).
\<close>

definition SysTick_LOAD_RELOAD_Msk :: "32 word" where
  "SysTick_LOAD_RELOAD_Msk = 0xFFFFFF"

section \<open>Helpers: memory accesses of the C code\<close>

text \<open>Reading or writing through a task pointer.\<close>

definition deref :: "sched_state \<Rightarrow> addr \<Rightarrow> fault + task_status" where
  "deref s p =
     (if p = 0 then Inl NullDeref
      else case tcbs s p of None \<Rightarrow> Inl DanglingPointer | Some t \<Rightarrow> Inr t)"

definition LOG :: "log_level \<Rightarrow> string \<Rightarrow> string \<Rightarrow> sched_state \<Rightarrow> sched_state" where
  "LOG lvl tag msg s = s\<lparr>trace := trace s @ [Log lvl tag msg]\<rparr>"

text \<open>set_pendsv: SETBITS(SCB->ICSR, SCB_ICSR_PENDSVSET_Msk).\<close>

definition set_pendsv :: "rtos_config \<Rightarrow> sched_state \<Rightarrow> sched_state" where
  "set_pendsv env s = s\<lparr>SCB_ICSR := SCB_ICSR s OR SCB_ICSR_PENDSVSET_Msk env\<rparr>"

text \<open>trigger_svcall: the svc 0 instruction, recorded in the trace.\<close>

definition trigger_svcall :: "sched_state \<Rightarrow> sched_state" where
  "trigger_svcall s = s\<lparr>trace := trace s @ [SVCall]\<rparr>"

text \<open>free of a stack block: free(NULL) does nothing, a block that is not live is a fault.\<close>

definition free_stack :: "sched_state \<Rightarrow> addr \<Rightarrow> fault + sched_state" where
  "free_stack s p =
     (if p = 0 then Inr s
      else if p \<in> stacks s then Inr (s\<lparr>stacks := stacks s - {p}\<rparr>)
      else Inl InvalidFree)"

text \<open>free of a task control block.\<close>

definition free_tcb :: "sched_state \<Rightarrow> addr \<Rightarrow> fault + sched_state" where
  "free_tcb s p =
     (if p = 0 then Inr s
      else if p \<in> dom (tcbs s) then Inr (s\<lparr>tcbs := (tcbs s)(p := None)\<rparr>)
      else Inl InvalidFree)"

section \<open>task\_yield and block\_active\_task\<close>

definition task_yield :: "rtos_config \<Rightarrow> sched_state \<Rightarrow> fault + sched_state" where
  "task_yield env s =
     (case deref s (active_task s) of
        Inl f \<Rightarrow> Inl f
      | Inr t \<Rightarrow>
          Inr (set_pendsv env
                 (s\<lparr>tcbs := (tcbs s)(active_task s \<mapsto> t\<lparr>state := TASK_READY\<rparr>)\<rparr>)))"

definition block_active_task ::
  "rtos_config \<Rightarrow> sched_state \<Rightarrow> block_reason_t \<Rightarrow> fault + sched_state" where
  "block_active_task env s reason =
     (case deref s (active_task s) of
        Inl f \<Rightarrow> Inl f
      | Inr t \<Rightarrow>
          Inr (set_pendsv env
                 (s\<lparr>tcbs := (tcbs s)(active_task s \<mapsto>
                                   t\<lparr>state := TASK_BLOCKED, blockcause := reason\<rparr>)\<rparr>)))"

section \<open>initialize\_task\_stack\<close>

text \<open>
  The loop while ((((uint32_t)stack_ptr) % 4) != 0) that moves the pointer down one byte
  at a time.
\<close>

function align_stack_ptr :: "addr \<Rightarrow> addr" where
  "align_stack_ptr p = (if p mod 4 \<noteq> 0 then align_stack_ptr (p - 1) else p)"
  by pat_completeness auto
termination
proof (relation "measure unat")
  show "wf (measure (unat :: addr \<Rightarrow> nat))" by simp
next
  fix p :: addr
  assume "p mod 4 \<noteq> 0"
  then have "p \<noteq> 0" by auto
  then have "unat (p - 1) < unat p"
    by (simp add: unat_minus_one unat_gt_0)
  then show "(p - 1, p) \<in> measure unat" by simp
qed

text \<open>The statement *stack_ptr-- = v on the memory and the pointer.\<close>

definition store_dec ::
  "(addr \<Rightarrow> 32 word) \<times> addr \<Rightarrow> 32 word \<Rightarrow> (addr \<Rightarrow> 32 word) \<times> addr" where
  "store_dec mp v = (case mp of (m, p) \<Rightarrow> (m(p := v), p - 4))"

definition initialize_task_stack ::
  "rtos_config \<Rightarrow> (addr \<Rightarrow> 32 word) \<Rightarrow> addr \<Rightarrow> addr \<Rightarrow> addr \<Rightarrow> (addr \<Rightarrow> 32 word) \<times> addr" where
  "initialize_task_stack env m sp return_pc arg0 =
     (case foldl store_dec (m, align_stack_ptr sp)
            [INITIAL_xPSR, return_pc, task_exithandler env,
             0x12121212, 0x03030303, 0x02020202, 0x01010101,
             arg0, INITIAL_EXEC_RETURN,
             0x11111111, 0x10101010, 0x09090909, 0x08080808,
             0x07070707, 0x06060606, 0x05050505]
      of (m', p) \<Rightarrow> (m'(p := 0x04040404), p))"

text \<open>
  The addresses of an n-word frame whose highest word is at address a, highest first.
\<close>

definition frame_addrs :: "addr \<Rightarrow> nat \<Rightarrow> addr list" where
  "frame_addrs a n = map (\<lambda>k. a - 4 * of_nat k) [0..<n]"

section \<open>Sequencing of faulting steps\<close>

definition then_do :: "fault + 'a \<Rightarrow> ('a \<Rightarrow> fault + 'b) \<Rightarrow> fault + 'b" where
  "then_do r f = (case r of Inl e \<Rightarrow> Inl e | Inr x \<Rightarrow> f x)"

text \<open>Access to the static array ready_tasks[RTOS_PRIORITY_COUNT].\<close>

definition in_bounds :: "rtos_config \<Rightarrow> int \<Rightarrow> bool" where
  "in_bounds env i \<longleftrightarrow> 0 \<le> i \<and> i < int (RTOS_PRIORITY_COUNT env)"

section \<open>unblock\_task\<close>

definition unblock_task ::
  "rtos_config \<Rightarrow> sched_state \<Rightarrow> addr \<Rightarrow> block_reason_t \<Rightarrow> fault + sched_state" where
  "unblock_task env s task reason =
     then_do (deref s task) (\<lambda>tsk.
       if state tsk \<noteq> TASK_BLOCKED \<or> blockcause tsk \<noteq> reason then Inr s
       else
         let s1 = s\<lparr>tcbs := (tcbs s)(task \<mapsto>
                         tsk\<lparr>state := TASK_READY, blockcause := BLOCK_NONE\<rparr>)\<rparr>;
             s2 = s1\<lparr>blocked_tasks := list_remove (blocked_tasks s1) task\<rparr>;
             p = unat (priority tsk)
         in if in_bounds env (int p)
            then Inr (s2\<lparr>ready_tasks :=
                          (ready_tasks s2)[p := list_append (ready_tasks s2 ! p) task]\<rparr>)
            else Inl OutOfBounds)"

section \<open>task\_destroy\<close>

definition task_destroy :: "rtos_config \<Rightarrow> sched_state \<Rightarrow> addr \<Rightarrow> fault + sched_state" where
  "task_destroy env s task =
     (if task = active_task s then
        then_do (deref s task) (\<lambda>tsk.
          Inr (trigger_svcall
                 (s\<lparr>exited_tasks := list_append (exited_tasks s) task,
                    active_task := 0\<rparr>)))
      else
        then_do (deref s task) (\<lambda>tsk.
          then_do
            (if state tsk = TASK_BLOCKED then
               Inr (s\<lparr>blocked_tasks := list_remove (blocked_tasks s) task\<rparr>)
             else if state tsk = TASK_READY then
               (let p = unat (priority tsk)
                in if in_bounds env (int p)
                   then Inr (s\<lparr>ready_tasks :=
                                 (ready_tasks s)[p := list_remove (ready_tasks s ! p) task]\<rparr>)
                   else Inl OutOfBounds)
             else
               Inr (LOG LOG_WARNING TAG
                      ''Inactive destroyed task is not in blocked or ready list'' s))
            (\<lambda>s1.
               then_do (if stack_allocated tsk then free_stack s1 (stack_end tsk) else Inr s1)
                 (\<lambda>s2. free_tcb s2 task))))"

section \<open>select\_active\_task\<close>

text \<open>
  The scan for (i = RTOS_PRIORITY_COUNT - 1; i > 0; i--) if (ready_tasks[i] != NULL) break;
  the result is the value of i after the loop.
\<close>

function scan_ready :: "list_t list \<Rightarrow> int \<Rightarrow> int" where
  "scan_ready rq i =
     (if i > 0 then (if rq ! nat i \<noteq> [] then i else scan_ready rq (i - 1)) else i)"
  by pat_completeness auto
termination
  by (relation "measure (\<lambda>(rq, i). nat i)") auto

definition select_active_task :: "rtos_config \<Rightarrow> sched_state \<Rightarrow> fault + sched_state" where
  "select_active_task env s =
     (let i = scan_ready (ready_tasks s) (int (RTOS_PRIORITY_COUNT env) - 1)
      in if \<not> in_bounds env i then Inl OutOfBounds
         else if ready_tasks s ! nat i = [] then Inr s
         else
           let new_active = list_get_head (ready_tasks s ! nat i);
               s1 = s\<lparr>ready_tasks :=
                        (ready_tasks s)[nat i := list_remove (ready_tasks s ! nat i) new_active]\<rparr>
           in then_do
                (if active_task s1 \<noteq> 0 then
                   then_do (deref s1 (active_task s1)) (\<lambda>act.
                     if state act = TASK_BLOCKED then
                       Inr (s1\<lparr>blocked_tasks :=
                                 list_append (blocked_tasks s1) (active_task s1)\<rparr>)
                     else
                       (let p = unat (priority act)
                        in if in_bounds env (int p)
                           then Inr (s1\<lparr>ready_tasks :=
                                         (ready_tasks s1)
                                           [p := list_append (ready_tasks s1 ! p)
                                                   (active_task s1)]\<rparr>)
                           else Inl OutOfBounds))
                 else Inr s1)
                (\<lambda>s2.
                   let s3 = s2\<lparr>active_task := new_active\<rparr>
                   in then_do (deref s3 (active_task s3)) (\<lambda>a.
                        Inr (s3\<lparr>tcbs := (tcbs s3)(active_task s3 \<mapsto>
                                            a\<lparr>state := TASK_ACTIVE\<rparr>)\<rparr>))))"

text \<open>
  The ready queue the scan looks for: the non-empty queue of the highest index.
\<close>

definition highest_ready :: "list_t list \<Rightarrow> nat \<Rightarrow> bool" where
  "highest_ready rq i \<longleftrightarrow>
     i < length rq \<and> rq ! i \<noteq> [] \<and> list_all (\<lambda>q. q = []) (drop (Suc i) rq)"

text \<open>The three ways a dispatch treats the previous active task.\<close>

definition requeue_prev :: "rtos_config \<Rightarrow> sched_state \<Rightarrow> nat \<Rightarrow> sched_state" where
  "requeue_prev env s i =
     (let rq1 = (ready_tasks s)[i := tl (ready_tasks s ! i)]
      in if active_task s = 0 then s\<lparr>ready_tasks := rq1\<rparr>
         else case tcbs s (active_task s) of
                None \<Rightarrow> s
              | Some ta \<Rightarrow>
                  if state ta = TASK_BLOCKED
                  then s\<lparr>ready_tasks := rq1, blocked_tasks := blocked_tasks s @ [active_task s]\<rparr>
                  else s\<lparr>ready_tasks :=
                           rq1[unat (priority ta) := rq1 ! unat (priority ta) @ [active_task s]]\<rparr>)"

definition prev_ok :: "rtos_config \<Rightarrow> sched_state \<Rightarrow> bool" where
  "prev_ok env s \<longleftrightarrow>
     active_task s = 0 \<or>
     (case tcbs s (active_task s) of
        None \<Rightarrow> False
      | Some ta \<Rightarrow> state ta = TASK_BLOCKED \<or> unat (priority ta) < RTOS_PRIORITY_COUNT env)"

text \<open>Whether a dispatch puts the previous active task at the tail of ready queue p.\<close>

definition prev_requeued_at :: "sched_state \<Rightarrow> nat \<Rightarrow> bool" where
  "prev_requeued_at s p \<longleftrightarrow>
     active_task s \<noteq> 0 \<and>
     (case tcbs s (active_task s) of
        None \<Rightarrow> False
      | Some ta \<Rightarrow> state ta \<noteq> TASK_BLOCKED \<and> unat (priority ta) = p)"

text \<open>Whether a dispatch puts the previous active task on the blocked list.\<close>

definition prev_blocked :: "sched_state \<Rightarrow> bool" where
  "prev_blocked s \<longleftrightarrow>
     active_task s \<noteq> 0 \<and>
     (case tcbs s (active_task s) of None \<Rightarrow> False | Some ta \<Rightarrow> state ta = TASK_BLOCKED)"

text \<open>
  The ready queues after a dispatch from queue i: the head of queue i is gone, and the
  previous active task, if it is re-queued, is at the tail of the queue of its priority.
\<close>

definition dispatched_queues :: "sched_state \<Rightarrow> nat \<Rightarrow> list_t list" where
  "dispatched_queues s i =
     map (\<lambda>p. (if p = i then tl (ready_tasks s ! i) else ready_tasks s ! p) @
               (if prev_requeued_at s p then [active_task s] else []))
         [0..<length (ready_tasks s)]"

text \<open>
  The invariants of the data model (spec section 3) that the scheduler relies on: every
  handle on ready queue i is a live control block of priority i, the active pointer is
  null or a live control block (of a priority below the priority count), no handle is on
  two lists or twice on one, and the active task is on no list.
\<close>

definition listed :: "sched_state \<Rightarrow> addr list" where
  "listed s = concat (ready_tasks s) @ blocked_tasks s @ exited_tasks s"

definition queue_prio_ok :: "sched_state \<Rightarrow> bool" where
  "queue_prio_ok s \<longleftrightarrow>
     list_all
       (\<lambda>(i, q). list_all (\<lambda>h. h \<noteq> 0 \<and>
                     (case tcbs s h of None \<Rightarrow> False | Some t \<Rightarrow> unat (priority t) = i)) q)
       (enumerate 0 (ready_tasks s))"

definition sched_ok :: "rtos_config \<Rightarrow> sched_state \<Rightarrow> bool" where
  "sched_ok env s \<longleftrightarrow>
     0 < RTOS_PRIORITY_COUNT env \<and> length (ready_tasks s) = RTOS_PRIORITY_COUNT env \<and>
     queue_prio_ok s \<and> prev_ok env s \<and> distinct (listed s) \<and>
     active_task s \<notin> set (listed s)"

section \<open>task\_create\<close>

text \<open>
  The allocator is a collaborator: what its calls return is an argument of the model.
  malloc_tcb is the result of malloc(sizeof(task_status_t)) and raw the indeterminate
  contents of the new block; malloc_stack is the result of the malloc of the stack, when
  task_create calls it. A result of 0 is the null pointer of a failed allocation.

  Second half of task_create (from "Update task state and place in ready queue" on),
  which both branches of the first half reach with the control block t built so far.
\<close>

definition create_tail ::
  "rtos_config \<Rightarrow> sched_state \<Rightarrow> addr \<Rightarrow> task_status \<Rightarrow> addr \<Rightarrow> addr \<Rightarrow>
   fault + (addr \<times> sched_state)" where
  "create_tail env s task t entry_fn arg_p =
     (let t1 = t\<lparr>blockcause := BLOCK_NONE, state := TASK_READY,
                 entry := entry_fn, arg := arg_p\<rparr>;
          mp = initialize_task_stack env (mem s) (stack_start t1) (entry t1) (arg t1);
          t2 = t1\<lparr>stack_ptr := snd mp\<rparr>;
          s1 = s\<lparr>mem := fst mp, tcbs := (tcbs s)(task \<mapsto> t2)\<rparr>;
          p = unat (priority t2)
      in if \<not> in_bounds env (int p) then Inl OutOfBounds
         else
           let s2 = s1\<lparr>ready_tasks :=
                        (ready_tasks s1)[p := list_append (ready_tasks s1 ! p) task]\<rparr>
           in if ready_tasks s2 ! p = [] then
                then_do
                  (free_tcb (LOG LOG_ERROR TAG ''Could not append new task to ready list'' s2)
                     task)
                  (\<lambda>s3. then_do (deref s3 task) (\<lambda>tf.
                     then_do (if stack_allocated tf then free_stack s3 (stack_start tf)
                              else Inr s3)
                       (\<lambda>s4. Inr (0, s4))))
              else Inr (task, s2))"

definition task_create ::
  "rtos_config \<Rightarrow> sched_state \<Rightarrow> addr \<Rightarrow> addr \<Rightarrow> task_config option \<Rightarrow>
   addr \<Rightarrow> task_status \<Rightarrow> addr \<Rightarrow> fault + (addr \<times> sched_state)" where
  "task_create env s entry_fn arg_p cfg malloc_tcb raw malloc_stack =
     (if entry_fn = 0 then Inr (0, s)
      else
        let task = malloc_tcb
        in if task = 0 then Inr (0, s)
           else
             let s0 = s\<lparr>tcbs := (tcbs s)(task \<mapsto> raw)\<rparr>
             in case cfg of
                  None \<Rightarrow>
                    (let t = raw\<lparr>priority := DEFAULT_PRIORITY env, name := [],
                                  stack_end := malloc_stack, stack_allocated := True\<rparr>
                     in if stack_end t = 0
                        then then_do (free_tcb s0 task) (\<lambda>s1. Inr (0, s1))
                        else create_tail env
                               (s0\<lparr>stacks := insert malloc_stack (stacks s0)\<rparr>) task
                               (t\<lparr>stack_start := stack_end t + (DEFAULT_STACKSIZE env - 1)\<rparr>)
                               entry_fn arg_p)
                | Some c \<Rightarrow>
                    if task_priority c > of_nat (RTOS_PRIORITY_COUNT env) then Inr (0, s0)
                    else
                      then_do
                        (if task_stack c \<noteq> 0
                         then Inr (Some (raw\<lparr>stack_end := task_stack c,
                                              stack_allocated := False\<rparr>), s0)
                         else
                           (let t = raw\<lparr>stack_end := malloc_stack, stack_allocated := True\<rparr>
                            in if stack_end t = 0
                               then then_do (free_tcb s0 task) (\<lambda>s1. Inr (None, s1))
                               else Inr (Some t,
                                         s0\<lparr>stacks := insert malloc_stack (stacks s0)\<rparr>)))
                        (\<lambda>r. case r of
                           (None, s1) \<Rightarrow> Inr (0, s1)
                         | (Some t, s1) \<Rightarrow>
                             create_tail env s1 task
                               (t\<lparr>name := (case task_name c of Some n \<Rightarrow> n | None \<Rightarrow> []),
                                  stack_start := stack_end t + (task_stacksize c - 1),
                                  priority := task_priority c\<rparr>)
                               entry_fn arg_p))"

section \<open>enable\_systick and rtos\_start\<close>

text \<open>
  How a function that may call exit ends: with a fault, in exit with its status, by
  returning, or (rtos_start) by handing the processor to the scheduler for good.
\<close>

datatype outcome =
  Fault fault | Exit syserr_t sched_state | Return sched_state | Started sched_state

text \<open>hclk is the result of hclk_freq() of the clock driver.\<close>

definition enable_systick :: "rtos_config \<Rightarrow> 32 word \<Rightarrow> sched_state \<Rightarrow> outcome" where
  "enable_systick env hclk s =
     (if SYSTICK_FREQ env = 0 then Fault DivByZero
      else
        let reload_val = drop_bit 3 hclk div SYSTICK_FREQ env
        in if reload_val > SysTick_LOAD_RELOAD_Msk
           then Exit ERR_BADPARAM (LOG LOG_ERROR TAG ''Oversized systick reload value'' s)
           else Return (s\<lparr>SysTick_LOAD := reload_val - 1,
                           SysTick_CTRL := SysTick_CTRL s OR
                             (SysTick_CTRL_TICKINT_Msk env OR SysTick_CTRL_ENABLE_Msk env)\<rparr>))"

text \<open>
  svc_returns says whether the supervisor call comes back to rtos_start; the allocator
  results are those of the task_create call.
\<close>

definition rtos_start ::
  "rtos_config \<Rightarrow> sched_state \<Rightarrow> addr \<Rightarrow> task_status \<Rightarrow> addr \<Rightarrow> bool \<Rightarrow> outcome" where
  "rtos_start env s malloc_tcb raw malloc_stack svc_returns =
     (let idle_task_cfg = (DEFAULT_TASK_CONFIG env)
            \<lparr>task_name := Some IDLE_TASK_NAME,
             task_priority := IDLE_TASK_PRIORITY env,
             task_stacksize := IDLE_TASK_STACK_SIZE env\<rparr>
      in case task_create env s (idle_entry env) 0 (Some idle_task_cfg)
                malloc_tcb raw malloc_stack of
           Inl f \<Rightarrow> Fault f
         | Inr (idle_task, s1) \<Rightarrow>
             if idle_task = 0
             then Exit ERR_SCHEDULER (LOG LOG_ERROR TAG ''Could not create idle task'' s1)
             else
               let s2 = trigger_svcall s1
               in if svc_returns
                  then Exit ERR_SCHEDULER
                         (LOG LOG_ERROR TAG ''Scheduler returned without starting RTOS'' s2)
                  else Started s2)"

section \<open>Example configuration and states\<close>

definition env0 :: rtos_config where
  "env0 = \<lparr>RTOS_PRIORITY_COUNT = 7, DEFAULT_PRIORITY = 3, DEFAULT_STACKSIZE = 2048,
            IDLE_TASK_PRIORITY = 0, IDLE_TASK_STACK_SIZE = 512,
            DEFAULT_TASK_CONFIG = \<lparr>task_stack = 0, task_stacksize = 2048,
                                    task_name = Some [], task_priority = 3\<rparr>,
            SYSTICK_FREQ = 200, SysTick_CTRL_TICKINT_Msk = 2, SysTick_CTRL_ENABLE_Msk = 1,
            SCB_ICSR_PENDSVSET_Msk = 0x10000000,
            task_exithandler = 0x08000401, idle_entry = 0x08000501\<rparr>"

definition zero_mem :: "addr \<Rightarrow> 32 word" where
  "zero_mem a = 0"

definition tcb0 :: task_status where
  "tcb0 = \<lparr>stack_ptr = 0, stack_start = 0, stack_end = 0, entry = 0, arg = 0,
           state = TASK_READY, name = [], stack_allocated = False,
           blockcause = BLOCK_NONE, priority = 0\<rparr>"

definition mk_tcb :: "task_state_t \<Rightarrow> 32 word \<Rightarrow> block_reason_t \<Rightarrow> task_status" where
  "mk_tcb st prio cause = tcb0\<lparr>state := st, priority := prio, blockcause := cause\<rparr>"

definition state0 :: sched_state where
  "state0 = \<lparr>active_task = 0, ready_tasks = [[], [], [], [], [], [], []], blocked_tasks = [],
             exited_tasks = [], tcbs = Map.empty, stacks = {}, mem = zero_mem,
             SCB_ICSR = 0, SysTick_LOAD = 0, SysTick_CTRL = 0, trace = []\<rparr>"

text \<open>One running task at priority 5 and nothing else.\<close>

definition state_running :: sched_state where
  "state_running = state0\<lparr>active_task := 0x100,
                          tcbs := [0x100 \<mapsto> mk_tcb TASK_ACTIVE 5 BLOCK_NONE]\<rparr>"

text \<open>
  The active task (priority 5) has yielded; one task waits on ready queue 3.
\<close>

definition state_yielded :: sched_state where
  "state_yielded =
     state0\<lparr>active_task := 0x100,
            ready_tasks := [[], [], [], [0x200], [], [], []],
            tcbs := [0x100 \<mapsto> mk_tcb TASK_READY 5 BLOCK_NONE,
                     0x200 \<mapsto> mk_tcb TASK_READY 3 BLOCK_NONE]\<rparr>"

text \<open>The only task has yielded: every ready queue is empty.\<close>

definition state_alone :: sched_state where
  "state_alone = state0\<lparr>active_task := 0x100,
                        tcbs := [0x100 \<mapsto> mk_tcb TASK_READY 5 BLOCK_NONE]\<rparr>"

text \<open>A task configuration without a stack of its own, at priority p.\<close>

definition cfg_prio :: "32 word \<Rightarrow> task_config" where
  "cfg_prio p = \<lparr>task_stack = 0, task_stacksize = 1024, task_name = Some ''worker'',
                 task_priority = p\<rparr>"

text \<open>A configuration with a tick frequency of 1 Hz.\<close>

definition env_slow_tick :: rtos_config where
  "env_slow_tick = env0\<lparr>SYSTICK_FREQ := 1\<rparr>"

text \<open>
  A running task, a ready task, and a task blocked for cause 1 whose stack was allocated
  by task_create.
\<close>

definition state_blocked :: sched_state where
  "state_blocked =
     state0\<lparr>active_task := 0x100,
            ready_tasks := [[], [], [], [0x200], [], [], []],
            blocked_tasks := [0x300],
            tcbs := [0x100 \<mapsto> mk_tcb TASK_ACTIVE 5 BLOCK_NONE,
                     0x200 \<mapsto> mk_tcb TASK_READY 3 BLOCK_NONE,
                     0x300 \<mapsto> (mk_tcb TASK_BLOCKED 2 (BLOCK_CAUSE 1))
                                 \<lparr>stack_allocated := True, stack_end := 0x2000,
                                  stack_start := 0x27FF\<rparr>],
            stacks := {0x2000}\<rparr>"

definition tcb_blocked :: task_status where
  "tcb_blocked = (mk_tcb TASK_BLOCKED 2 (BLOCK_CAUSE 1))
                    \<lparr>stack_allocated := True, stack_end := 0x2000, stack_start := 0x27FF\<rparr>"

lemmas ex_defs = state_yielded_def state_alone_def state_running_def state_blocked_def
  tcb_blocked_def state0_def env0_def mk_tcb_def tcb0_def

section \<open>The scan of the ready queues\<close>

declare scan_ready.simps [simp del]

lemma highest_ready_above:
  "highest_ready rq i \<Longrightarrow> i < j \<Longrightarrow> j < length rq \<Longrightarrow> rq ! j = []"
proof -
  assume h: "highest_ready rq i" and ij: "i < j" and jl: "j < length rq"
  from h have "\<forall>q \<in> set (drop (Suc i) rq). q = []"
    by (simp add: highest_ready_def list_all_iff)
  moreover have "rq ! j \<in> set (drop (Suc i) rq)"
  proof -
    have "drop (Suc i) rq ! (j - Suc i) = rq ! j" using ij jl by simp
    moreover have "j - Suc i < length (drop (Suc i) rq)" using ij jl by simp
    ultimately show ?thesis by (metis nth_mem)
  qed
  ultimately show ?thesis by blast
qed

lemma scan_ready_range:
  "0 \<le> n \<Longrightarrow> 0 \<le> scan_ready rq n \<and> scan_ready rq n \<le> n"
proof (induction rq n rule: scan_ready.induct)
  case (1 rq i)
  then show ?case by (subst (1 2) scan_ready.simps) auto
qed

lemma scan_ready_above:
  "scan_ready rq n < j \<Longrightarrow> j \<le> n \<Longrightarrow> rq ! nat j = []"
proof (induction rq n rule: scan_ready.induct)
  case (1 rq i)
  show ?case
  proof (cases "0 < i \<and> rq ! nat i = []")
    case True
    with "1.prems" have s: "scan_ready rq (i - 1) < j"
      by (subst (asm) scan_ready.simps) simp
    show ?thesis
    proof (cases "j = i")
      case True
      with \<open>0 < i \<and> rq ! nat i = []\<close> show ?thesis by simp
    next
      case False
      with "1.prems" have "j \<le> i - 1" by simp
      with "1.IH" True s show ?thesis by simp
    qed
  next
    case False
    with "1.prems" show ?thesis
      by (subst (asm) scan_ready.simps) (auto split: if_splits)
  qed
qed

lemma scan_ready_hit:
  "0 < scan_ready rq n \<Longrightarrow> rq ! nat (scan_ready rq n) \<noteq> []"
proof (induction rq n rule: scan_ready.induct)
  case (1 rq i)
  show ?case
  proof (cases "0 < i \<and> rq ! nat i = []")
    case True
    then have e: "scan_ready rq i = scan_ready rq (i - 1)"
      by (subst scan_ready.simps) simp
    with "1.prems" "1.IH" True show ?thesis by simp
  next
    case False
    then have e: "scan_ready rq i = i"
      by (subst scan_ready.simps) auto
    with "1.prems" False show ?thesis by auto
  qed
qed

lemma scan_ready_highest:
  assumes "highest_ready rq i" "0 < length rq"
  shows "scan_ready rq (int (length rq) - 1) = int i"
proof -
  let ?r = "scan_ready rq (int (length rq) - 1)"
  from assms have il: "i < length rq" and ne: "rq ! i \<noteq> []" by (simp_all add: highest_ready_def)
  have rng: "0 \<le> ?r \<and> ?r \<le> int (length rq) - 1" using assms(2) by (intro scan_ready_range) simp
  have "\<not> ?r < int i"
  proof
    assume "?r < int i"
    then have "rq ! nat (int i) = []" using il by (intro scan_ready_above[of rq "int (length rq) - 1"]) simp_all
    with ne show False by simp
  qed
  moreover have "\<not> int i < ?r"
  proof
    assume lt: "int i < ?r"
    then have "0 < ?r" by simp
    then have "rq ! nat ?r \<noteq> []" by (rule scan_ready_hit)
    moreover have "rq ! nat ?r = []" using lt rng assms(1) by (intro highest_ready_above[of rq i]) simp_all
    ultimately show False by simp
  qed
  ultimately show ?thesis by simp
qed

lemma scan_ready_all_empty:
  assumes "list_all (\<lambda>q. q = []) rq" "0 < length rq"
  shows "scan_ready rq (int (length rq) - 1) = 0"
proof -
  let ?r = "scan_ready rq (int (length rq) - 1)"
  have rng: "0 \<le> ?r \<and> ?r \<le> int (length rq) - 1" using assms(2) by (intro scan_ready_range) simp
  have "\<not> 0 < ?r"
  proof
    assume p: "0 < ?r"
    then have "rq ! nat ?r \<noteq> []" by (rule scan_ready_hit)
    moreover have "nat ?r < length rq" using rng p by simp
    then have "rq ! nat ?r \<in> set rq" by simp
    ultimately show False using assms(1) by (simp add: list_all_iff)
  qed
  with rng show ?thesis by simp
qed


lemma remove1_head: "q \<noteq> [] \<Longrightarrow> list_remove q (hd q) = tl q"
  by (cases q) (simp_all add: list_remove_def)

lemma head_hd: "q \<noteq> [] \<Longrightarrow> list_get_head q = hd q"
  by (cases q) (simp_all add: list_get_head_def)

section \<open>What a scheduler pass computes\<close>

lemma select_active_task_dispatch:
  assumes P: "0 < RTOS_PRIORITY_COUNT env" "length (ready_tasks s) = RTOS_PRIORITY_COUNT env"
    and hi: "highest_ready (ready_tasks s) i"
    and new: "hd (ready_tasks s ! i) \<noteq> 0" "tcbs s (hd (ready_tasks s ! i)) = Some tn"
    and prev: "prev_ok env s"
  shows "select_active_task env s =
           Inr ((requeue_prev env s i)
                  \<lparr>active_task := hd (ready_tasks s ! i),
                   tcbs := (tcbs s)(hd (ready_tasks s ! i) \<mapsto> tn\<lparr>state := TASK_ACTIVE\<rparr>)\<rparr>)"
proof -
  from hi P have sc: "scan_ready (ready_tasks s) (int (RTOS_PRIORITY_COUNT env) - 1) = int i"
    using scan_ready_highest[of "ready_tasks s" i] by simp
  from hi P have il: "i < RTOS_PRIORITY_COUNT env" and ne: "ready_tasks s ! i \<noteq> []"
    by (simp_all add: highest_ready_def)
  show ?thesis
  proof (cases "active_task s = 0")
    case True
    with sc il ne new show ?thesis
      by (simp add: select_active_task_def in_bounds_def Let_def then_do_def deref_def
          remove1_head head_hd requeue_prev_def)
  next
    case False
    with prev obtain ta where ta: "tcbs s (active_task s) = Some ta"
      and pb: "state ta = TASK_BLOCKED \<or> unat (priority ta) < RTOS_PRIORITY_COUNT env"
      by (auto simp: prev_ok_def split: option.splits)
    with False sc il ne new show ?thesis
      by (auto simp add: select_active_task_def in_bounds_def Let_def then_do_def deref_def
          remove1_head head_hd requeue_prev_def list_append_def)
  qed
qed

lemma select_active_task_idle:
  assumes P: "0 < RTOS_PRIORITY_COUNT env" "length (ready_tasks s) = RTOS_PRIORITY_COUNT env"
    and e: "list_all (\<lambda>q. q = []) (ready_tasks s)"
  shows "select_active_task env s = Inr s"
proof -
  from e P have sc: "scan_ready (ready_tasks s) (int (RTOS_PRIORITY_COUNT env) - 1) = 0"
    using scan_ready_all_empty[of "ready_tasks s"] by simp
  from e P have "ready_tasks s ! 0 = []"
    by (simp add: list_all_length)
  with sc P show ?thesis
    by (simp add: select_active_task_def in_bounds_def Let_def)
qed

section \<open>Invariants and list facts\<close>

lemma queue_prio_okD:
  assumes "queue_prio_ok s" "i < length (ready_tasks s)" "h \<in> set (ready_tasks s ! i)"
  shows "h \<noteq> 0 \<and> (\<exists>t. tcbs s h = Some t \<and> unat (priority t) = i)"
proof -
  from assms(1,2) have "list_all (\<lambda>h. h \<noteq> 0 \<and>
      (case tcbs s h of None \<Rightarrow> False | Some t \<Rightarrow> unat (priority t) = i)) (ready_tasks s ! i)"
    by (simp add: queue_prio_ok_def list_all_length nth_enumerate_eq)
  with assms(3) show ?thesis
    by (auto simp: list_all_iff split: option.splits)
qed

lemma highest_ready_exists:
  "\<not> list_all (\<lambda>q. q = []) rq \<Longrightarrow> \<exists>i. highest_ready rq i"
proof (induction rq)
  case Nil
  then show ?case by simp
next
  case (Cons q qs)
  show ?case
  proof (cases "list_all (\<lambda>q. q = []) qs")
    case True
    with Cons.prems have "highest_ready (q # qs) 0"
      by (simp add: highest_ready_def)
    then show ?thesis ..
  next
    case False
    with Cons.IH obtain i where "highest_ready qs i" by blast
    then have "highest_ready (q # qs) (Suc i)"
      by (simp add: highest_ready_def)
    then show ?thesis ..
  qed
qed

lemma in_concat_nth:
  "h \<in> set (concat rq) \<longleftrightarrow> (\<exists>j < length rq. h \<in> set (rq ! j))"
  by (auto simp: in_set_conv_nth) (metis nth_mem)+

lemma distinct_concat_lt:
  assumes d: "distinct (concat rq)" and ij: "i < j" and jl: "j < length rq"
  shows "set (rq ! i) \<inter> set (rq ! j) = {}"
proof -
  have "concat rq = concat (take j rq) @ concat (drop j rq)"
    by (metis append_take_drop_id concat_append)
  with d have dis: "set (concat (take j rq)) \<inter> set (concat (drop j rq)) = {}"
    by (metis distinct_append)
  have "rq ! i \<in> set (take j rq)"
    using ij jl by (metis in_set_conv_nth length_take min.absorb2 nth_take less_or_eq_imp_le)
  then have a: "set (rq ! i) \<subseteq> set (concat (take j rq))" by auto
  have "rq ! j \<in> set (drop j rq)"
    using jl by (metis Cons_nth_drop_Suc list.set_intros(1))
  then have b: "set (rq ! j) \<subseteq> set (concat (drop j rq))" by auto
  from a b dis show ?thesis by blast
qed

lemma distinct_concat_nth:
  assumes "distinct (concat rq)" "i < length rq" "j < length rq" "i \<noteq> j"
    "h \<in> set (rq ! i)"
  shows "h \<notin> set (rq ! j)"
proof (cases "i < j")
  case True
  with assms distinct_concat_lt[of rq i j] show ?thesis by blast
next
  case False
  with assms have "j < i" by simp
  with assms distinct_concat_lt[of rq j i] show ?thesis by blast
qed

lemma distinct_concat_each:
  assumes "distinct (concat rq)" "i < length rq"
  shows "distinct (rq ! i)"
proof -
  have "rq = take i rq @ rq ! i # drop (Suc i) rq"
    using assms(2) by (rule id_take_nth_drop)
  then have "concat rq = concat (take i rq) @ rq ! i @ concat (drop (Suc i) rq)"
    by (metis concat.simps(2) concat_append)
  with assms(1) show ?thesis by (metis distinct_append)
qed


lemma requeue_prev_ready:
  assumes "prev_ok env s" "length (ready_tasks s) = RTOS_PRIORITY_COUNT env"
    "p < length (ready_tasks s)"
  shows "ready_tasks (requeue_prev env s i) ! p =
           (if p = i then tl (ready_tasks s ! i) else ready_tasks s ! p) @
           (if prev_requeued_at s p then [active_task s] else [])"
  using assms
  by (auto simp: requeue_prev_def prev_ok_def prev_requeued_at_def Let_def nth_list_update
      split: option.splits)

lemma requeue_prev_length:
  "length (ready_tasks (requeue_prev env s i)) = length (ready_tasks s)"
  by (simp add: requeue_prev_def Let_def split: option.splits)

lemma requeue_prev_blocked:
  "prev_ok env s \<Longrightarrow> blocked_tasks (requeue_prev env s i) =
     blocked_tasks s @ (if prev_blocked s then [active_task s] else [])"
  by (auto simp: requeue_prev_def prev_ok_def prev_blocked_def Let_def split: option.splits)

lemma requeue_prev_exited:
  "exited_tasks (requeue_prev env s i) = exited_tasks s"
  by (simp add: requeue_prev_def Let_def split: option.splits)

lemma requeue_prev_tcbs:
  "tcbs (requeue_prev env s i) = tcbs s"
  by (simp add: requeue_prev_def Let_def split: option.splits)

lemma requeue_prev_queues:
  assumes "prev_ok env s" "length (ready_tasks s) = RTOS_PRIORITY_COUNT env"
  shows "ready_tasks (requeue_prev env s i) = dispatched_queues s i"
proof (rule nth_equalityI)
  show "length (ready_tasks (requeue_prev env s i)) = length (dispatched_queues s i)"
    by (simp add: requeue_prev_length dispatched_queues_def)
next
  fix p assume "p < length (ready_tasks (requeue_prev env s i))"
  then have pl: "p < length (ready_tasks s)" by (simp add: requeue_prev_length)
  with requeue_prev_ready[OF assms pl, of i]
  show "ready_tasks (requeue_prev env s i) ! p = dispatched_queues s i ! p"
    by (simp add: dispatched_queues_def)
qed

lemma requeue_prev_record:
  assumes "prev_ok env s"
  shows "requeue_prev env s i =
           s\<lparr>ready_tasks := ready_tasks (requeue_prev env s i),
             blocked_tasks := blocked_tasks (requeue_prev env s i)\<rparr>"
  using assms
  by (auto simp: requeue_prev_def prev_ok_def Let_def split: option.splits)

lemma requeue_prev_eq:
  assumes "prev_ok env s" "length (ready_tasks s) = RTOS_PRIORITY_COUNT env"
  shows "requeue_prev env s i =
           s\<lparr>ready_tasks := dispatched_queues s i,
             blocked_tasks :=
               blocked_tasks s @ (if prev_blocked s then [active_task s] else [])\<rparr>"
  using requeue_prev_record[OF assms(1), of i] requeue_prev_queues[OF assms, of i]
    requeue_prev_blocked[OF assms(1), of i]
  by simp

lemma sched_ok_head:
  assumes ok: "sched_ok env s" and hi: "highest_ready (ready_tasks s) i"
  shows "hd (ready_tasks s ! i) \<noteq> 0 \<and>
         (\<exists>t. tcbs s (hd (ready_tasks s ! i)) = Some t \<and> unat (priority t) = i) \<and>
         hd (ready_tasks s ! i) \<noteq> active_task s \<and>
         hd (ready_tasks s ! i) \<notin> set (tl (ready_tasks s ! i))"
proof -
  from hi have il: "i < length (ready_tasks s)" and ne: "ready_tasks s ! i \<noteq> []"
    by (simp_all add: highest_ready_def)
  from ne have m: "hd (ready_tasks s ! i) \<in> set (ready_tasks s ! i)" by simp
  from ok have q: "queue_prio_ok s" and d: "distinct (concat (ready_tasks s))"
    and a: "active_task s \<notin> set (concat (ready_tasks s))"
    by (simp_all add: sched_ok_def listed_def)
  from a il m have "hd (ready_tasks s ! i) \<noteq> active_task s"
    by (auto simp: in_concat_nth)
  moreover from d il have "distinct (ready_tasks s ! i)" by (rule distinct_concat_each)
  with ne have "hd (ready_tasks s ! i) \<notin> set (tl (ready_tasks s ! i))"
    by (cases "ready_tasks s ! i") simp_all
  ultimately show ?thesis using queue_prio_okD[OF q il m] by simp
qed

lemma task_destroy_self:
  assumes "active_task s \<noteq> 0" "tcbs s (active_task s) = Some ta"
  shows "task_destroy env s (active_task s) =
           Inr (s\<lparr>active_task := 0, exited_tasks := exited_tasks s @ [active_task s],
                  trace := trace s @ [SVCall]\<rparr>)"
  using assms
  by (simp add: task_destroy_def then_do_def deref_def trigger_svcall_def list_append_def)

lemma prev_ok_active:
  assumes "prev_ok env s" "active_task s \<noteq> 0"
  obtains ta where "tcbs s (active_task s) = Some ta"
    "state ta = TASK_BLOCKED \<or> unat (priority ta) < RTOS_PRIORITY_COUNT env"
  using assms by (auto simp: prev_ok_def split: option.splits)

lemma in_set_tl: "h \<in> set (tl q) \<Longrightarrow> h \<in> set q"
  by (cases q) simp_all

lemma not_in_concatI:
  "(\<And>p. p < length rq \<Longrightarrow> h \<notin> set (rq ! p)) \<Longrightarrow> h \<notin> set (concat rq)"
  unfolding in_concat_nth by blast

lemma not_in_concatD:
  "h \<notin> set (concat rq) \<Longrightarrow> p < length rq \<Longrightarrow> h \<notin> set (rq ! p)"
  unfolding in_concat_nth by blast

lemma not_in_tl_update:
  assumes "h \<notin> set (concat rq)"
  shows "h \<notin> set (concat (rq[i := tl (rq ! i)]))"
proof
  assume "h \<in> set (concat (rq[i := tl (rq ! i)]))"
  then obtain j where j: "j < length rq" and m: "h \<in> set (rq[i := tl (rq ! i)] ! j)"
    unfolding in_concat_nth by auto
  have "h \<in> set (rq ! j)"
  proof (cases "j = i")
    case True
    with j m have "h \<in> set (tl (rq ! i))" by simp
    then have "h \<in> set (rq ! i)" by (rule in_set_tl)
    with True show ?thesis by simp
  next
    case False
    with m show ?thesis by simp
  qed
  with j assms show False unfolding in_concat_nth by blast
qed


section \<open>The initial stack frame\<close>

declare align_stack_ptr.simps [simp del]

lemma mod4_unat: "(p :: addr) mod 4 = 0 \<longleftrightarrow> unat p mod 4 = 0"
proof -
  have "unat (p mod 4) = unat p mod 4" by (simp add: unat_mod)
  moreover have "p mod 4 = 0 \<longleftrightarrow> unat (p mod 4) = 0" by (simp add: unat_eq_zero)
  ultimately show ?thesis by simp
qed

lemma align_stack_ptr_unat: "unat (align_stack_ptr p) = 4 * (unat p div 4)"
proof (induction p rule: align_stack_ptr.induct)
  case (1 p)
  show ?case
  proof (cases "p mod 4 = 0")
    case True
    then have "unat p mod 4 = 0" by (simp add: mod4_unat)
    then have "4 * (unat p div 4) = unat p" by presburger
    with True show ?thesis
      by (subst align_stack_ptr.simps) simp
  next
    case False
    then have nz: "unat p mod 4 \<noteq> 0" by (simp add: mod4_unat)
    have p0: "p \<noteq> 0" using False by auto
    then have u: "unat (p - 1) = unat p - 1" by (simp add: unat_minus_one)
    from nz have "(unat p - 1) div 4 = unat p div 4"
      by presburger
    with False "1.IH" u show ?thesis
      by (subst align_stack_ptr.simps) simp
  qed
qed


lemma frame_addrs_17:
  "frame_addrs a 17 =
     [a, a - 4, a - 8, a - 12, a - 16, a - 20, a - 24, a - 28, a - 32, a - 36, a - 40,
      a - 44, a - 48, a - 52, a - 56, a - 60, a - 64]"
  by (simp add: frame_addrs_def upt_rec)

lemma INITIAL_xPSR_thumb: "bit INITIAL_xPSR 24"
  by (simp add: INITIAL_xPSR_def bit_iff_odd_drop_bit)

lemma align_ex: "align_stack_ptr 0x20001003 = 0x20001000"
  by (simp add: align_stack_ptr.simps)


section \<open>Unfolding task creation; the reload value\<close>

lemmas create_defs = task_create_def create_tail_def then_do_def in_bounds_def Let_def
  free_tcb_def free_stack_def deref_def list_append_def LOG_def cfg_prio_def

lemma reload_unat:
  "unat (drop_bit 3 hclk div f :: 32 word) = (unat hclk div 8) div unat f"
  by (simp add: unat_div unat_drop_bit_eq drop_bit_eq_div)

text \<open>
  What task_create does on the paths the priority check does not decide: null for a null
  entry or a failed allocation, with the state restored when the new block was not live
  before; on success the new task is READY at the tail of the ready queue of its
  priority, and neither the pendable-service bit nor the trace changes. Then the two
  paths of the priority check: above the priority count the new block stays allocated,
  at the priority count the ready-queue array is indexed out of bounds.
\<close>

lemma task_create_null_cases:
  "entry_fn = 0 \<or> malloc_tcb = 0 \<Longrightarrow>
     task_create env s entry_fn arg_p cfg malloc_tcb raw malloc_stack = Inr (0, s)"
  by (auto simp: task_create_def)

lemma task_create_stack_failure:
  assumes "entry_fn \<noteq> 0" "malloc_tcb \<noteq> 0" "tcbs s malloc_tcb = None" "malloc_stack = 0"
    and "case cfg of None \<Rightarrow> True
         | Some c \<Rightarrow> task_stack c = 0 \<and> \<not> task_priority c > of_nat (RTOS_PRIORITY_COUNT env)"
  shows "task_create env s entry_fn arg_p cfg malloc_tcb raw malloc_stack = Inr (0, s)"
  using assms
  by (auto simp: task_create_def then_do_def free_tcb_def Let_def fun_upd_idem
      split: option.splits)

lemma create_tail_success:
  assumes "create_tail env s task t entry_fn arg_p = Inr (h, s')" "h \<noteq> 0"
    and "length (ready_tasks s) = RTOS_PRIORITY_COUNT env"
  shows "h = task \<and> unat (priority t) < RTOS_PRIORITY_COUNT env \<and>
         (\<exists>t'. tcbs s' h = Some t' \<and> state t' = TASK_READY \<and> blockcause t' = BLOCK_NONE \<and>
               priority t' = priority t) \<and>
         ready_tasks s' ! unat (priority t) = ready_tasks s ! unat (priority t) @ [h] \<and>
         SCB_ICSR s' = SCB_ICSR s \<and> trace s' = trace s \<and> active_task s' = active_task s"
  using assms
  by (auto simp: create_tail_def in_bounds_def Let_def list_append_def then_do_def
      split: if_splits)

lemma task_create_success:
  assumes "task_create env s entry_fn arg_p cfg malloc_tcb raw malloc_stack = Inr (h, s')"
    "h \<noteq> 0" and "length (ready_tasks s) = RTOS_PRIORITY_COUNT env"
  shows "\<exists>t'. tcbs s' h = Some t' \<and> state t' = TASK_READY \<and>
           unat (priority t') < RTOS_PRIORITY_COUNT env \<and>
           ready_tasks s' ! unat (priority t') = ready_tasks s ! unat (priority t') @ [h] \<and>
           SCB_ICSR s' = SCB_ICSR s \<and> trace s' = trace s \<and> active_task s' = active_task s"
  using assms
  by (auto simp: task_create_def then_do_def free_tcb_def Let_def
      split: option.splits if_splits dest!: create_tail_success)


lemma task_create_invalid_priority:
  assumes "entry_fn \<noteq> 0" "malloc_tcb \<noteq> 0"
    "task_priority c > of_nat (RTOS_PRIORITY_COUNT env)"
  shows "task_create env s entry_fn arg_p (Some c) malloc_tcb raw malloc_stack =
           Inr (0, s\<lparr>tcbs := (tcbs s)(malloc_tcb \<mapsto> raw)\<rparr>)"
  using assms by (simp add: task_create_def)

lemma task_create_priority_eq_count:
  assumes "entry_fn \<noteq> 0" "malloc_tcb \<noteq> 0"
    "task_priority c = of_nat (RTOS_PRIORITY_COUNT env)" "RTOS_PRIORITY_COUNT env < 2 ^ 32"
    "task_stack c \<noteq> 0 \<or> malloc_stack \<noteq> 0"
  shows "task_create env s entry_fn arg_p (Some c) malloc_tcb raw malloc_stack =
           Inl OutOfBounds"
proof -
  from assms(4) have "unat (of_nat (RTOS_PRIORITY_COUNT env) :: 32 word) = RTOS_PRIORITY_COUNT env"
    by (simp add: unat_of_nat)
  with assms show ?thesis
    by (auto simp: task_create_def create_tail_def then_do_def in_bounds_def Let_def)
qed

section \<open>Theorems\<close>

text \<open>
  C10. task_yield and block_active_task read and write the control block of the active
  task without a check. With an active task (a non-null active pointer to a live control
  block) both return: task_yield sets the state of the active task to READY,
  block_active_task sets it to BLOCKED with the given cause, and both then set the
  pendable-service bit, changing nothing else. With a null active pointer both
  dereference the null pointer.
\<close>

theorem yield_block_need_active_task:
  "(active_task s \<noteq> 0 \<and> tcbs s (active_task s) = Some t \<longrightarrow>
      task_yield env s =
        Inr (s\<lparr>tcbs := (tcbs s)(active_task s \<mapsto> t\<lparr>state := TASK_READY\<rparr>),
               SCB_ICSR := SCB_ICSR s OR SCB_ICSR_PENDSVSET_Msk env\<rparr>) \<and>
      block_active_task env s cause =
        Inr (s\<lparr>tcbs := (tcbs s)(active_task s \<mapsto>
                          t\<lparr>state := TASK_BLOCKED, blockcause := cause\<rparr>),
               SCB_ICSR := SCB_ICSR s OR SCB_ICSR_PENDSVSET_Msk env\<rparr>)) \<and>
   (active_task s = 0 \<longrightarrow>
      task_yield env s = Inl NullDeref \<and> block_active_task env s cause = Inl NullDeref)"
  by (simp add: task_yield_def block_active_task_def deref_def set_pendsv_def)

text \<open>
  Witness of C10: the theorem at a state with a running task and at the initial state.
\<close>

theorem yield_block_need_active_task_witness:
  "active_task state_running \<noteq> 0 \<and>
   tcbs state_running (active_task state_running) = Some (mk_tcb TASK_ACTIVE 5 BLOCK_NONE) \<and>
   task_yield env0 state_running =
     Inr (state_running\<lparr>tcbs := (tcbs state_running)(active_task state_running \<mapsto>
                            (mk_tcb TASK_ACTIVE 5 BLOCK_NONE)\<lparr>state := TASK_READY\<rparr>),
            SCB_ICSR := SCB_ICSR state_running OR SCB_ICSR_PENDSVSET_Msk env0\<rparr>) \<and>
   active_task state0 = 0 \<and> task_yield env0 state0 = Inl NullDeref \<and>
   block_active_task env0 state0 (BLOCK_CAUSE 1) = Inl NullDeref"
proof -
  have a: "active_task state_running \<noteq> 0 \<and>
           tcbs state_running (active_task state_running) =
             Some (mk_tcb TASK_ACTIVE 5 BLOCK_NONE)"
    by (simp add: state_running_def state0_def)
  have z: "active_task state0 = 0"
    by (simp add: state0_def)
  from a z
    yield_block_need_active_task [of state_running "mk_tcb TASK_ACTIVE 5 BLOCK_NONE" env0]
    yield_block_need_active_task [of state0 tcb0 env0 "BLOCK_CAUSE 1"]
  show ?thesis by blast
qed

text \<open>
  C1 (amended). In a well-formed scheduler state (the invariant sched_ok)
  select_active_task makes the head of the highest-priority non-empty ready queue the
  active task, removes it from that queue and sets its state to ACTIVE; when every ready
  queue is empty the state is unchanged. The previous active task is put back after the
  choice is made: at the tail of the blocked list if BLOCKED, at the tail of the ready
  queue of its own priority otherwise, whatever that priority is. The theorem gives the
  whole state after the dispatch. So every ready queue above the new active task's
  priority is then empty, except the queue of a re-queued previous active task, which
  holds exactly that task.
\<close>

theorem select_active_task_highest:
  assumes ok: "sched_ok env s"
  shows "(list_all (\<lambda>q. q = []) (ready_tasks s) \<or> (\<exists>i. highest_ready (ready_tasks s) i)) \<and>
         (list_all (\<lambda>q. q = []) (ready_tasks s) \<longrightarrow> select_active_task env s = Inr s) \<and>
         (highest_ready (ready_tasks s) i \<longrightarrow>
            (\<exists>s' t tn. select_active_task env s = Inr s' \<and>
               tcbs s (hd (ready_tasks s ! i)) = Some t \<and>
               tn = t\<lparr>state := TASK_ACTIVE\<rparr> \<and>
               s' = s\<lparr>ready_tasks := dispatched_queues s i,
                      blocked_tasks :=
                        blocked_tasks s @ (if prev_blocked s then [active_task s] else []),
                      active_task := hd (ready_tasks s ! i),
                      tcbs := (tcbs s)(hd (ready_tasks s ! i) \<mapsto> tn)\<rparr> \<and>
               active_task s' = hd (ready_tasks s ! i) \<and>
               tcbs s' (active_task s') = Some tn \<and> state tn = TASK_ACTIVE \<and>
               unat (priority tn) = i \<and>
               (\<forall>p < RTOS_PRIORITY_COUNT env.
                  ready_tasks s' ! p =
                    (if p = i then tl (ready_tasks s ! i) else ready_tasks s ! p) @
                    (if prev_requeued_at s p then [active_task s] else [])) \<and>
               ready_tasks s' ! i =
                 tl (ready_tasks s ! i) @
                 (if prev_requeued_at s i then [active_task s] else []) \<and>
               active_task s' \<notin> set (ready_tasks s' ! i) \<and>
               (\<forall>p < RTOS_PRIORITY_COUNT env. unat (priority tn) < p \<longrightarrow>
                  ready_tasks s' ! p =
                    (if prev_requeued_at s p then [active_task s] else []))))"
proof (intro conjI impI)
  show "list_all (\<lambda>q. q = []) (ready_tasks s) \<or> (\<exists>i. highest_ready (ready_tasks s) i)"
    using highest_ready_exists by blast
next
  assume "list_all (\<lambda>q. q = []) (ready_tasks s)"
  with ok show "select_active_task env s = Inr s"
    by (intro select_active_task_idle) (simp_all add: sched_ok_def)
next
  assume hi: "highest_ready (ready_tasks s) i"
  let ?n = "hd (ready_tasks s ! i)"
  from ok have P: "0 < RTOS_PRIORITY_COUNT env"
    "length (ready_tasks s) = RTOS_PRIORITY_COUNT env" and prev: "prev_ok env s"
    by (simp_all add: sched_ok_def)
  from hi have il: "i < length (ready_tasks s)" by (simp add: highest_ready_def)
  from sched_ok_head[OF ok hi] obtain t where n0: "?n \<noteq> 0" and t: "tcbs s ?n = Some t"
    and pt: "unat (priority t) = i" and na: "?n \<noteq> active_task s"
    and ntl: "?n \<notin> set (tl (ready_tasks s ! i))" by blast
  let ?tn = "t\<lparr>state := TASK_ACTIVE\<rparr>"
  let ?s' = "s\<lparr>ready_tasks := dispatched_queues s i,
               blocked_tasks :=
                 blocked_tasks s @ (if prev_blocked s then [active_task s] else []),
               active_task := ?n,
               tcbs := (tcbs s)(?n \<mapsto> ?tn)\<rparr>"
  have "select_active_task env s =
          Inr ((requeue_prev env s i)\<lparr>active_task := ?n, tcbs := (tcbs s)(?n \<mapsto> ?tn)\<rparr>)"
    using P hi n0 t prev by (rule select_active_task_dispatch)
  then have sel: "select_active_task env s = Inr ?s'"
    by (simp add: requeue_prev_eq[OF prev P(2)])
  have rq: "\<And>p. p < length (ready_tasks s) \<Longrightarrow> ready_tasks ?s' ! p =
           (if p = i then tl (ready_tasks s ! i) else ready_tasks s ! p) @
           (if prev_requeued_at s p then [active_task s] else [])"
    by (simp add: dispatched_queues_def)
  have every: "\<forall>p < RTOS_PRIORITY_COUNT env. ready_tasks ?s' ! p =
           (if p = i then tl (ready_tasks s ! i) else ready_tasks s ! p) @
           (if prev_requeued_at s p then [active_task s] else [])"
    using rq P(2) by simp
  have above: "\<forall>p < RTOS_PRIORITY_COUNT env. unat (priority ?tn) < p \<longrightarrow>
                  ready_tasks ?s' ! p = (if prev_requeued_at s p then [active_task s] else [])"
    using rq P(2) pt highest_ready_above[OF hi] by auto
  have nin: "active_task ?s' \<notin> set (ready_tasks ?s' ! i)"
    using rq[OF il] ntl na by auto
  have at: "ready_tasks ?s' ! i =
              tl (ready_tasks s ! i) @ (if prev_requeued_at s i then [active_task s] else [])"
    using rq[OF il] by simp
  show "\<exists>s' t tn. select_active_task env s = Inr s' \<and>
               tcbs s (hd (ready_tasks s ! i)) = Some t \<and>
               tn = t\<lparr>state := TASK_ACTIVE\<rparr> \<and>
               s' = s\<lparr>ready_tasks := dispatched_queues s i,
                      blocked_tasks :=
                        blocked_tasks s @ (if prev_blocked s then [active_task s] else []),
                      active_task := hd (ready_tasks s ! i),
                      tcbs := (tcbs s)(hd (ready_tasks s ! i) \<mapsto> tn)\<rparr> \<and>
               active_task s' = hd (ready_tasks s ! i) \<and>
               tcbs s' (active_task s') = Some tn \<and> state tn = TASK_ACTIVE \<and>
               unat (priority tn) = i \<and>
               (\<forall>p < RTOS_PRIORITY_COUNT env.
                  ready_tasks s' ! p =
                    (if p = i then tl (ready_tasks s ! i) else ready_tasks s ! p) @
                    (if prev_requeued_at s p then [active_task s] else [])) \<and>
               ready_tasks s' ! i =
                 tl (ready_tasks s ! i) @
                 (if prev_requeued_at s i then [active_task s] else []) \<and>
               active_task s' \<notin> set (ready_tasks s' ! i) \<and>
               (\<forall>p < RTOS_PRIORITY_COUNT env. unat (priority tn) < p \<longrightarrow>
                  ready_tasks s' ! p =
                    (if prev_requeued_at s p then [active_task s] else []))"
    apply (rule exI[of _ ?s'])
    apply (rule exI[of _ t])
    apply (rule exI[of _ ?tn])
    apply (intro conjI)
    subgoal by (rule sel)
    subgoal by (rule t)
    subgoal by (rule refl)
    subgoal by (rule refl)
    subgoal by simp
    subgoal by simp
    subgoal by simp
    subgoal using pt by simp
    subgoal by (rule every)
    subgoal by (rule at)
    subgoal by (rule nin)
    subgoal by (rule above)
    done
qed

text \<open>Witness of C1: the theorem at the example states.\<close>

theorem select_active_task_highest_witness:
  "sched_ok env0 state_yielded \<and> highest_ready (ready_tasks state_yielded) 3 \<and>
   (\<exists>s'. select_active_task env0 state_yielded = Inr s' \<and>
         active_task s' = hd (ready_tasks state_yielded ! 3)) \<and>
   sched_ok env0 state_alone \<and> list_all (\<lambda>q. q = []) (ready_tasks state_alone) \<and>
   select_active_task env0 state_alone = Inr state_alone"
proof -
  have a: "sched_ok env0 state_yielded"
    by (simp add: sched_ok_def queue_prio_ok_def prev_ok_def listed_def ex_defs)
  have b: "highest_ready (ready_tasks state_yielded) 3"
    by (simp add: highest_ready_def ex_defs)
  have c: "sched_ok env0 state_alone"
    by (simp add: sched_ok_def queue_prio_ok_def prev_ok_def listed_def ex_defs)
  have d: "list_all (\<lambda>q. q = []) (ready_tasks state_alone)"
    by (simp add: ex_defs)
  from a b c d select_active_task_highest [OF a, of 3] select_active_task_highest [OF c, of 0]
  show ?thesis by blast
qed

text \<open>
  C1 as stated fails: a task of priority 5 yields while a task of priority 3 is ready.
  The priority-3 task is dispatched and ready queue 5 then holds the task that yielded.
\<close>

theorem select_active_task_highest_counterexample:
  "sched_ok env0 state_yielded \<and>
   (case select_active_task env0 state_yielded of
      Inl f \<Rightarrow> False
    | Inr s' \<Rightarrow> active_task s' = 0x200 \<and>
               map_option priority (tcbs s' (active_task s')) = Some 3 \<and>
               ready_tasks s' ! 5 = [0x100])"
  by (simp add: sched_ok_def queue_prio_ok_def prev_ok_def listed_def ex_defs
      select_active_task_def scan_ready.simps in_bounds_def Let_def then_do_def deref_def
      list_get_head_def list_remove_def list_append_def)

text \<open>
  C2 (amended). In a well-formed scheduler state (the invariant sched_ok) with an active
  task: after the active task destroyed itself, the next select_active_task puts it on
  no ready queue and not on the blocked list; it stays on the exited list only. When
  every ready queue is empty, select_active_task returns the state unchanged: the
  previous active task stays active and on no list. When some ready queue is non-empty,
  select_active_task puts the previous active task on exactly one list: at the tail of
  the blocked list if its state is BLOCKED, at the tail of the ready queue of its own
  priority otherwise; the new active task is on no list. The theorem gives the whole
  state after the dispatch.
\<close>

theorem select_active_task_places_previous:
  assumes ok: "sched_ok env s" and act: "active_task s \<noteq> 0"
  shows
    "(\<exists>s1 s2. task_destroy env s (active_task s) = Inr s1 \<and> active_task s1 = 0 \<and>
        select_active_task env s1 = Inr s2 \<and>
        active_task s \<notin> set (concat (ready_tasks s2)) \<and>
        active_task s \<notin> set (blocked_tasks s2) \<and>
        exited_tasks s2 = exited_tasks s @ [active_task s] \<and>
        active_task s \<notin> set (exited_tasks s)) \<and>
     (list_all (\<lambda>q. q = []) (ready_tasks s) \<longrightarrow>
        select_active_task env s = Inr s \<and> active_task s \<notin> set (listed s)) \<and>
     (highest_ready (ready_tasks s) i \<longrightarrow>
        (\<exists>s' ta tn. select_active_task env s = Inr s' \<and> tcbs s (active_task s) = Some ta \<and>
           tcbs s (hd (ready_tasks s ! i)) = Some tn \<and>
           s' = s\<lparr>ready_tasks := dispatched_queues s i,
                  blocked_tasks :=
                    blocked_tasks s @ (if state ta = TASK_BLOCKED then [active_task s] else []),
                  active_task := hd (ready_tasks s ! i),
                  tcbs := (tcbs s)(hd (ready_tasks s ! i) \<mapsto> tn\<lparr>state := TASK_ACTIVE\<rparr>)\<rparr> \<and>
           (if state ta = TASK_BLOCKED
            then blocked_tasks s' = blocked_tasks s @ [active_task s] \<and>
                 active_task s \<notin> set (blocked_tasks s) \<and>
                 active_task s \<notin> set (concat (ready_tasks s'))
            else (\<exists>q. ready_tasks s' ! unat (priority ta) = q @ [active_task s] \<and>
                      active_task s \<notin> set q) \<and>
                 (\<forall>p < RTOS_PRIORITY_COUNT env. p \<noteq> unat (priority ta) \<longrightarrow>
                      active_task s \<notin> set (ready_tasks s' ! p)) \<and>
                 active_task s \<notin> set (blocked_tasks s')) \<and>
           active_task s \<notin> set (exited_tasks s') \<and>
           active_task s' \<notin> set (listed s')))"
proof (intro conjI impI)
  from ok have P: "0 < RTOS_PRIORITY_COUNT env"
    "length (ready_tasks s) = RTOS_PRIORITY_COUNT env" and prev: "prev_ok env s"
    and nl: "active_task s \<notin> set (listed s)"
    by (simp_all add: sched_ok_def)
  from prev act obtain ta where ta: "tcbs s (active_task s) = Some ta"
    by (rule prev_ok_active)
  let ?a = "active_task s"
  let ?s1 = "s\<lparr>active_task := 0, exited_tasks := exited_tasks s @ [?a],
                trace := trace s @ [SVCall]\<rparr>"
  have d: "task_destroy env s ?a = Inr ?s1"
    using act ta by (rule task_destroy_self)
  have P1: "0 < RTOS_PRIORITY_COUNT env" "length (ready_tasks ?s1) = RTOS_PRIORITY_COUNT env"
    using P by simp_all
  have prev1: "prev_ok env ?s1" by (simp add: prev_ok_def)
  from nl have nr: "?a \<notin> set (concat (ready_tasks s))" and nb: "?a \<notin> set (blocked_tasks s)"
    and ne: "?a \<notin> set (exited_tasks s)"
    by (simp_all add: listed_def)
  have "\<exists>s2. select_active_task env ?s1 = Inr s2 \<and>
          ?a \<notin> set (concat (ready_tasks s2)) \<and> ?a \<notin> set (blocked_tasks s2) \<and>
          exited_tasks s2 = exited_tasks s @ [?a]" (is "\<exists>s2. ?Q s2")
  proof (cases "list_all (\<lambda>q. q = []) (ready_tasks s)")
    case True
    then have "select_active_task env ?s1 = Inr ?s1"
      using P1 by (intro select_active_task_idle) simp_all
    with nr nb show ?thesis by simp
  next
    case False
    then obtain j where hj: "highest_ready (ready_tasks s) j"
      using highest_ready_exists by blast
    from sched_ok_head[OF ok hj] obtain t where n0: "hd (ready_tasks s ! j) \<noteq> 0"
      and t: "tcbs s (hd (ready_tasks s ! j)) = Some t" by blast
    have "select_active_task env ?s1 =
            Inr ((requeue_prev env ?s1 j)\<lparr>active_task := hd (ready_tasks ?s1 ! j),
                   tcbs := (tcbs ?s1)(hd (ready_tasks ?s1 ! j) \<mapsto> t\<lparr>state := TASK_ACTIVE\<rparr>)\<rparr>)"
      using P1 hj n0 t prev1 by (intro select_active_task_dispatch) simp_all
    moreover have "ready_tasks (requeue_prev env ?s1 j) =
                     (ready_tasks s)[j := tl (ready_tasks s ! j)]"
      by (simp add: requeue_prev_def)
    moreover have "blocked_tasks (requeue_prev env ?s1 j) = blocked_tasks s"
      by (simp add: requeue_prev_def)
    moreover have "exited_tasks (requeue_prev env ?s1 j) = exited_tasks s @ [?a]"
      by (simp add: requeue_prev_def)
    ultimately show ?thesis using not_in_tl_update[OF nr] nb by simp
  qed
  then obtain s2 where "?Q s2" ..
  with d ne show "\<exists>s1 s2. task_destroy env s (active_task s) = Inr s1 \<and> active_task s1 = 0 \<and>
        select_active_task env s1 = Inr s2 \<and>
        active_task s \<notin> set (concat (ready_tasks s2)) \<and>
        active_task s \<notin> set (blocked_tasks s2) \<and>
        exited_tasks s2 = exited_tasks s @ [active_task s] \<and>
        active_task s \<notin> set (exited_tasks s)"
    by (intro exI[of _ ?s1] exI[of _ s2]) simp
next
  assume "list_all (\<lambda>q. q = []) (ready_tasks s)"
  with ok show "select_active_task env s = Inr s"
    by (intro select_active_task_idle) (simp_all add: sched_ok_def)
next
  from ok show "active_task s \<notin> set (listed s)"
    by (simp add: sched_ok_def)
next
  assume hi: "highest_ready (ready_tasks s) i"
  let ?n = "hd (ready_tasks s ! i)"
  let ?a = "active_task s"
  from ok have P: "0 < RTOS_PRIORITY_COUNT env"
    "length (ready_tasks s) = RTOS_PRIORITY_COUNT env" and prev: "prev_ok env s"
    and nl: "?a \<notin> set (listed s)" and dl: "distinct (listed s)"
    by (simp_all add: sched_ok_def)
  from nl have nr: "?a \<notin> set (concat (ready_tasks s))" and nb: "?a \<notin> set (blocked_tasks s)"
    and ne: "?a \<notin> set (exited_tasks s)"
    by (simp_all add: listed_def)
  from dl have dr: "distinct (concat (ready_tasks s))"
    and dj: "set (concat (ready_tasks s)) \<inter> (set (blocked_tasks s) \<union> set (exited_tasks s)) = {}"
    by (auto simp: listed_def)
  from prev act obtain ta where ta: "tcbs s ?a = Some ta"
    and pb: "state ta = TASK_BLOCKED \<or> unat (priority ta) < RTOS_PRIORITY_COUNT env"
    by (rule prev_ok_active)
  from hi have il: "i < length (ready_tasks s)" and nemp: "ready_tasks s ! i \<noteq> []"
    by (simp_all add: highest_ready_def)
  from sched_ok_head[OF ok hi] obtain t where n0: "?n \<noteq> 0" and t: "tcbs s ?n = Some t"
    and na: "?n \<noteq> ?a" and ntl: "?n \<notin> set (tl (ready_tasks s ! i))" by blast
  let ?s' = "(requeue_prev env s i)\<lparr>active_task := ?n,
                tcbs := (tcbs s)(?n \<mapsto> t\<lparr>state := TASK_ACTIVE\<rparr>)\<rparr>"
  have sel: "select_active_task env s = Inr ?s'"
    using P hi n0 t prev by (rule select_active_task_dispatch)
  have rq: "\<And>p. p < length (ready_tasks s) \<Longrightarrow> ready_tasks ?s' ! p =
           (if p = i then tl (ready_tasks s ! i) else ready_tasks s ! p) @
           (if prev_requeued_at s p then [?a] else [])"
    using requeue_prev_ready[OF prev P(2)] by simp
  have len: "length (ready_tasks ?s') = length (ready_tasks s)"
    by (simp add: requeue_prev_length)
  have bl: "blocked_tasks ?s' = blocked_tasks s @ (if prev_blocked s then [?a] else [])"
    using requeue_prev_blocked[OF prev] by simp
  have ex: "exited_tasks ?s' = exited_tasks s"
    by (simp add: requeue_prev_exited)
  have old: "\<And>p. p < length (ready_tasks s) \<Longrightarrow>
       ?a \<notin> set (if p = i then tl (ready_tasks s ! i) else ready_tasks s ! p)"
    using not_in_concatD[OF nr] by (auto dest: in_set_tl)
  have nmem: "?n \<in> set (ready_tasks s ! i)" using nemp by simp
  have n_rdy: "\<And>p. p < length (ready_tasks s) \<Longrightarrow> ?n \<notin> set (ready_tasks ?s' ! p)"
  proof -
    fix p assume pl: "p < length (ready_tasks s)"
    have "?n \<notin> set (if p = i then tl (ready_tasks s ! i) else ready_tasks s ! p)"
      using ntl distinct_concat_nth[OF dr il pl _ nmem] by auto
    with rq[OF pl] na show "?n \<notin> set (ready_tasks ?s' ! p)" by auto
  qed
  have "?n \<in> set (concat (ready_tasks s))"
    unfolding in_concat_nth using nmem il by blast
  with dj have n_other: "?n \<notin> set (blocked_tasks s)" "?n \<notin> set (exited_tasks s)"
    by blast+
  have "?n \<notin> set (concat (ready_tasks ?s'))"
    by (rule not_in_concatI) (use n_rdy len in simp)
  then have n_listed: "active_task ?s' \<notin> set (listed ?s')"
    using n_other na bl ex by (simp add: listed_def)
  have branch: "if state ta = TASK_BLOCKED
            then blocked_tasks ?s' = blocked_tasks s @ [?a] \<and>
                 ?a \<notin> set (blocked_tasks s) \<and>
                 ?a \<notin> set (concat (ready_tasks ?s'))
            else (\<exists>q. ready_tasks ?s' ! unat (priority ta) = q @ [?a] \<and> ?a \<notin> set q) \<and>
                 (\<forall>p < RTOS_PRIORITY_COUNT env. p \<noteq> unat (priority ta) \<longrightarrow>
                      ?a \<notin> set (ready_tasks ?s' ! p)) \<and>
                 ?a \<notin> set (blocked_tasks ?s')"
  proof (cases "state ta = TASK_BLOCKED")
    case True
    with act ta have pbk: "prev_blocked s" and nq: "\<And>p. \<not> prev_requeued_at s p"
      by (simp_all add: prev_blocked_def prev_requeued_at_def)
    have "?a \<notin> set (concat (ready_tasks ?s'))"
      by (rule not_in_concatI) (use rq old nq len in simp)
    with True bl pbk nb show ?thesis by simp
  next
    case False
    with act ta pb have npb: "\<not> prev_blocked s"
      and rqa: "\<And>p. prev_requeued_at s p \<longleftrightarrow> p = unat (priority ta)"
      and pl: "unat (priority ta) < length (ready_tasks s)"
      using P by (auto simp: prev_blocked_def prev_requeued_at_def)
    have "\<exists>q. ready_tasks ?s' ! unat (priority ta) = q @ [?a] \<and> ?a \<notin> set q"
      using rq[OF pl] old[OF pl] rqa by auto
    moreover have "\<forall>p < RTOS_PRIORITY_COUNT env. p \<noteq> unat (priority ta) \<longrightarrow>
                      ?a \<notin> set (ready_tasks ?s' ! p)"
      using rq old rqa P(2) by auto
    ultimately show ?thesis using False bl npb nb by simp
  qed
  have pbk: "prev_blocked s \<longleftrightarrow> state ta = TASK_BLOCKED"
    using act ta by (simp add: prev_blocked_def)
  have full: "?s' = s\<lparr>ready_tasks := dispatched_queues s i,
                  blocked_tasks :=
                    blocked_tasks s @ (if state ta = TASK_BLOCKED then [?a] else []),
                  active_task := ?n,
                  tcbs := (tcbs s)(?n \<mapsto> t\<lparr>state := TASK_ACTIVE\<rparr>)\<rparr>"
    by (simp add: requeue_prev_eq[OF prev P(2)] pbk)
  from sel ta t full branch ex ne n_listed
  show "\<exists>s' ta tn. select_active_task env s = Inr s' \<and> tcbs s (active_task s) = Some ta \<and>
           tcbs s (hd (ready_tasks s ! i)) = Some tn \<and>
           s' = s\<lparr>ready_tasks := dispatched_queues s i,
                  blocked_tasks :=
                    blocked_tasks s @ (if state ta = TASK_BLOCKED then [active_task s] else []),
                  active_task := hd (ready_tasks s ! i),
                  tcbs := (tcbs s)(hd (ready_tasks s ! i) \<mapsto> tn\<lparr>state := TASK_ACTIVE\<rparr>)\<rparr> \<and>
           (if state ta = TASK_BLOCKED
            then blocked_tasks s' = blocked_tasks s @ [active_task s] \<and>
                 active_task s \<notin> set (blocked_tasks s) \<and>
                 active_task s \<notin> set (concat (ready_tasks s'))
            else (\<exists>q. ready_tasks s' ! unat (priority ta) = q @ [active_task s] \<and>
                      active_task s \<notin> set q) \<and>
                 (\<forall>p < RTOS_PRIORITY_COUNT env. p \<noteq> unat (priority ta) \<longrightarrow>
                      active_task s \<notin> set (ready_tasks s' ! p)) \<and>
                 active_task s \<notin> set (blocked_tasks s')) \<and>
           active_task s \<notin> set (exited_tasks s') \<and>
           active_task s' \<notin> set (listed s')"
    by (intro exI[of _ ?s'] exI[of _ ta] exI[of _ t]) simp
qed

text \<open>Witness of C2: the theorem at the example states.\<close>

theorem select_active_task_places_previous_witness:
  "sched_ok env0 state_yielded \<and> active_task state_yielded \<noteq> 0 \<and>
   highest_ready (ready_tasks state_yielded) 3 \<and>
   (\<exists>s1 s2. task_destroy env0 state_yielded (active_task state_yielded) = Inr s1 \<and>
       select_active_task env0 s1 = Inr s2 \<and>
       exited_tasks s2 = exited_tasks state_yielded @ [active_task state_yielded]) \<and>
   (\<exists>s'. select_active_task env0 state_yielded = Inr s' \<and>
       active_task s' \<notin> set (listed s')) \<and>
   sched_ok env0 state_alone \<and> active_task state_alone \<noteq> 0 \<and>
   list_all (\<lambda>q. q = []) (ready_tasks state_alone) \<and>
   select_active_task env0 state_alone = Inr state_alone \<and>
   active_task state_alone \<notin> set (listed state_alone)"
proof -
  have a: "sched_ok env0 state_yielded"
    by (simp add: sched_ok_def queue_prio_ok_def prev_ok_def listed_def ex_defs)
  have b: "highest_ready (ready_tasks state_yielded) 3"
    by (simp add: highest_ready_def ex_defs)
  have c: "active_task state_yielded \<noteq> 0"
    by (simp add: ex_defs)
  have d: "sched_ok env0 state_alone"
    by (simp add: sched_ok_def queue_prio_ok_def prev_ok_def listed_def ex_defs)
  have e: "active_task state_alone \<noteq> 0"
    by (simp add: ex_defs)
  have f: "list_all (\<lambda>q. q = []) (ready_tasks state_alone)"
    by (simp add: ex_defs)
  from a b c d e f select_active_task_places_previous [OF a c, of 3]
    select_active_task_places_previous [OF d e, of 0]
  show ?thesis by blast
qed

text \<open>
  C2 as stated fails when a previous active task is present and every ready queue is
  empty: the scheduler pass returns early and the previous active task is on no list.
\<close>

theorem select_active_task_places_previous_counterexample:
  "sched_ok env0 state_alone \<and> active_task state_alone \<noteq> 0 \<and>
   (case select_active_task env0 state_alone of
      Inl f \<Rightarrow> False
    | Inr s' \<Rightarrow> active_task state_alone \<notin> set (listed s') \<and>
               active_task s' = active_task state_alone)"
  by (simp add: sched_ok_def queue_prio_ok_def prev_ok_def listed_def ex_defs
      select_active_task_def scan_ready.simps in_bounds_def Let_def)


text \<open>
  What task_destroy does on the active task: it appends it to the exited list, clears the
  active pointer and executes the supervisor call; no control block and no stack is
  freed, and no field of a control block is written.
\<close>

lemma task_destroy_active:
  assumes "h = active_task s" "h \<noteq> 0" "tcbs s h = Some t"
  shows "\<exists>s'. task_destroy env s h = Inr s' \<and>
           exited_tasks s' = exited_tasks s @ [h] \<and> active_task s' = 0 \<and>
           trace s' = trace s @ [SVCall] \<and>
           tcbs s' = tcbs s \<and> stacks s' = stacks s \<and>
           ready_tasks s' = ready_tasks s \<and> blocked_tasks s' = blocked_tasks s"
  using assms
  by (simp add: task_destroy_def then_do_def deref_def trigger_svcall_def list_append_def)


text \<open>
  C3, at a state with a running task 0x100 and a ready task 0x200. task_destroy on the
  running task puts it on the exited list and clears the active pointer, but does not
  mark its state EXITED: the state stays ACTIVE. After the scheduler pass that the
  supervisor call starts, the exited task and the newly dispatched task are both ACTIVE.
\<close>

theorem task_destroy_active_keeps_state:
  "active_task state_blocked = 0x100 \<and>
   map_option state (tcbs state_blocked 0x100) = Some TASK_ACTIVE \<and>
   (case task_destroy env0 state_blocked 0x100 of
      Inl f \<Rightarrow> False
    | Inr s1 \<Rightarrow>
        exited_tasks s1 = [0x100] \<and> active_task s1 = 0 \<and>
        map_option state (tcbs s1 0x100) = Some TASK_ACTIVE \<and>
        map_option state (tcbs s1 0x100) \<noteq> Some TASK_EXITED \<and>
        (case select_active_task env0 s1 of
           Inl f \<Rightarrow> False
         | Inr s2 \<Rightarrow>
             active_task s2 = 0x200 \<and>
             map_option state (tcbs s2 0x100) = Some TASK_ACTIVE \<and>
             map_option state (tcbs s2 0x200) = Some TASK_ACTIVE))"
  by (simp add: task_destroy_def then_do_def deref_def trigger_svcall_def list_append_def
      ex_defs select_active_task_def scan_ready.simps in_bounds_def Let_def
      list_get_head_def list_remove_def)

text \<open>
  C4. task_destroy on a task other than the active one removes it from the blocked list
  if its state is BLOCKED and from the ready queue of its priority if its state is READY,
  frees its stack exactly when stack_allocated is set, and frees the control block. The
  active pointer, the exited list and the list membership of every other task are
  unchanged.
\<close>

theorem task_destroy_inactive:
  assumes h: "h \<noteq> active_task s" "h \<noteq> 0" "tcbs s h = Some t"
    and len: "length (ready_tasks s) = RTOS_PRIORITY_COUNT env"
    and pr: "state t = TASK_READY \<longrightarrow> unat (priority t) < RTOS_PRIORITY_COUNT env"
    and st: "stack_allocated t \<longrightarrow> stack_end t \<noteq> 0 \<and> stack_end t \<in> stacks s"
    and d: "distinct (listed s)"
  shows "\<exists>s'. task_destroy env s h = Inr s' \<and>
           blocked_tasks s' =
             (if state t = TASK_BLOCKED then remove1 h (blocked_tasks s) else blocked_tasks s) \<and>
           ready_tasks s' =
             (if state t = TASK_READY
              then (ready_tasks s)[unat (priority t) :=
                                     remove1 h (ready_tasks s ! unat (priority t))]
              else ready_tasks s) \<and>
           (state t = TASK_BLOCKED \<longrightarrow> h \<notin> set (blocked_tasks s')) \<and>
           (state t = TASK_READY \<longrightarrow> h \<notin> set (ready_tasks s' ! unat (priority t))) \<and>
           stacks s' = (if stack_allocated t then stacks s - {stack_end t} else stacks s) \<and>
           tcbs s' = (tcbs s)(h := None) \<and>
           active_task s' = active_task s \<and> exited_tasks s' = exited_tasks s \<and>
           (\<forall>g. g \<noteq> h \<longrightarrow>
              (g \<in> set (blocked_tasks s') \<longleftrightarrow> g \<in> set (blocked_tasks s)) \<and>
              (\<forall>p < RTOS_PRIORITY_COUNT env.
                 g \<in> set (ready_tasks s' ! p) \<longleftrightarrow> g \<in> set (ready_tasks s ! p)))"
proof -
  let ?p = "unat (priority t)"
  let ?s1 = "if state t = TASK_BLOCKED then s\<lparr>blocked_tasks := remove1 h (blocked_tasks s)\<rparr>
             else if state t = TASK_READY
             then s\<lparr>ready_tasks := (ready_tasks s)[?p := remove1 h (ready_tasks s ! ?p)]\<rparr>
             else s\<lparr>trace := trace s @
               [Log LOG_WARNING TAG ''Inactive destroyed task is not in blocked or ready list'']\<rparr>"
  let ?s2 = "if stack_allocated t then ?s1\<lparr>stacks := stacks s - {stack_end t}\<rparr> else ?s1"
  let ?s' = "?s2\<lparr>tcbs := (tcbs s)(h := None)\<rparr>"
  have td: "task_destroy env s h = Inr ?s'"
    using h pr st
    by (auto simp add: task_destroy_def then_do_def deref_def in_bounds_def Let_def LOG_def
        list_remove_def free_stack_def free_tcb_def)
  from d have db: "distinct (blocked_tasks s)" and dr: "distinct (concat (ready_tasks s))"
    by (simp_all add: listed_def)
  have rb: "state t = TASK_BLOCKED \<longrightarrow> h \<notin> set (blocked_tasks ?s')"
    using db by simp
  have rr: "state t = TASK_READY \<longrightarrow> h \<notin> set (ready_tasks ?s' ! ?p)"
    using pr len distinct_concat_each[OF dr, of ?p] by auto
  have oth: "\<forall>g. g \<noteq> h \<longrightarrow>
              (g \<in> set (blocked_tasks ?s') \<longleftrightarrow> g \<in> set (blocked_tasks s)) \<and>
              (\<forall>p < RTOS_PRIORITY_COUNT env.
                 g \<in> set (ready_tasks ?s' ! p) \<longleftrightarrow> g \<in> set (ready_tasks s ! p))"
    using len[symmetric] pr by (auto simp: nth_list_update)
  show ?thesis
    apply (rule exI[of _ ?s'])
    apply (intro conjI)
    subgoal by (rule td)
    subgoal by simp
    subgoal by simp
    subgoal by (rule rb)
    subgoal by (rule rr)
    subgoal by simp
    subgoal by simp
    subgoal by simp
    subgoal by simp
    subgoal by (rule oth)
    done
qed

text \<open>Witness of C4: the theorem at the example states.\<close>

theorem task_destroy_inactive_witness:
  "(0x300 :: addr) \<noteq> active_task state_blocked \<and> (0x300 :: addr) \<noteq> 0 \<and>
   tcbs state_blocked 0x300 = Some tcb_blocked \<and>
   length (ready_tasks state_blocked) = RTOS_PRIORITY_COUNT env0 \<and>
   state tcb_blocked = TASK_BLOCKED \<and> stack_allocated tcb_blocked \<and>
   stack_end tcb_blocked \<in> stacks state_blocked \<and>
   distinct (listed state_blocked) \<and>
   (\<exists>s'. task_destroy env0 state_blocked 0x300 = Inr s' \<and>
         blocked_tasks s' = [] \<and> stacks s' = {} \<and> tcbs s' 0x300 = None \<and>
         active_task s' = 0x100)"
proof -
  have a: "(0x300 :: addr) \<noteq> active_task state_blocked" "(0x300 :: addr) \<noteq> 0"
    "tcbs state_blocked 0x300 = Some tcb_blocked"
    by (simp_all add: ex_defs)
  have b: "length (ready_tasks state_blocked) = RTOS_PRIORITY_COUNT env0"
    by (simp add: ex_defs)
  have c: "state tcb_blocked = TASK_READY \<longrightarrow>
           unat (priority tcb_blocked) < RTOS_PRIORITY_COUNT env0"
    by (simp add: ex_defs)
  have d: "stack_allocated tcb_blocked \<longrightarrow>
           stack_end tcb_blocked \<noteq> 0 \<and> stack_end tcb_blocked \<in> stacks state_blocked"
    by (simp add: ex_defs)
  have e: "distinct (listed state_blocked)"
    by (simp add: listed_def ex_defs)
  have f: "state tcb_blocked = TASK_BLOCKED" "stack_allocated tcb_blocked"
    "stack_end tcb_blocked \<in> stacks state_blocked"
    "blocked_tasks state_blocked = [0x300]" "stacks state_blocked = {0x2000}"
    "stack_end tcb_blocked = 0x2000" "active_task state_blocked = 0x100"
    by (simp_all add: ex_defs)
  from task_destroy_inactive [OF a b c d e] obtain s' where
    "task_destroy env0 state_blocked 0x300 = Inr s'"
    "blocked_tasks s' = (if state tcb_blocked = TASK_BLOCKED
        then remove1 0x300 (blocked_tasks state_blocked) else blocked_tasks state_blocked)"
    "stacks s' = (if stack_allocated tcb_blocked
        then stacks state_blocked - {stack_end tcb_blocked} else stacks state_blocked)"
    "tcbs s' = (tcbs state_blocked)(0x300 := None)"
    "active_task s' = active_task state_blocked"
    by blast
  with f have "task_destroy env0 state_blocked 0x300 = Inr s' \<and>
         blocked_tasks s' = [] \<and> stacks s' = {} \<and> tcbs s' 0x300 = None \<and>
         active_task s' = 0x100"
    by simp
  with a b e f show ?thesis by blast
qed

text \<open>
  C7. unblock_task returns the state unchanged unless the target is BLOCKED with the
  given cause. When it is, the target becomes READY with cause BLOCK_NONE, leaves the
  blocked list and is appended to the ready queue of its priority; the active pointer,
  the exited list, the pendable-service bit and the trace are unchanged.
\<close>

theorem unblock_task_guarded:
  assumes "h \<noteq> 0" "tcbs s h = Some t"
  shows "(state t \<noteq> TASK_BLOCKED \<or> blockcause t \<noteq> cause \<longrightarrow>
            unblock_task env s h cause = Inr s) \<and>
         (state t = TASK_BLOCKED \<and> blockcause t = cause \<and>
          unat (priority t) < RTOS_PRIORITY_COUNT env \<and>
          length (ready_tasks s) = RTOS_PRIORITY_COUNT env \<and>
          distinct (blocked_tasks s) \<longrightarrow>
            (\<exists>s'. unblock_task env s h cause = Inr s' \<and>
               tcbs s' = (tcbs s)(h \<mapsto> t\<lparr>state := TASK_READY, blockcause := BLOCK_NONE\<rparr>) \<and>
               blocked_tasks s' = remove1 h (blocked_tasks s) \<and>
               h \<notin> set (blocked_tasks s') \<and>
               ready_tasks s' =
                 (ready_tasks s)[unat (priority t) := ready_tasks s ! unat (priority t) @ [h]] \<and>
               ready_tasks s' ! unat (priority t) = ready_tasks s ! unat (priority t) @ [h] \<and>
               active_task s' = active_task s \<and> exited_tasks s' = exited_tasks s \<and>
               SCB_ICSR s' = SCB_ICSR s \<and> trace s' = trace s \<and>
               stacks s' = stacks s \<and> mem s' = mem s))"
  using assms
  by (auto simp add: unblock_task_def then_do_def deref_def in_bounds_def Let_def
      list_remove_def list_append_def)


text \<open>Witness of C7: the theorem at the example states.\<close>

theorem unblock_task_guarded_witness:
  "(0x300 :: addr) \<noteq> 0 \<and> tcbs state_blocked 0x300 = Some tcb_blocked \<and>
   blockcause tcb_blocked \<noteq> BLOCK_CAUSE 2 \<and>
   unblock_task env0 state_blocked 0x300 (BLOCK_CAUSE 2) = Inr state_blocked \<and>
   state tcb_blocked = TASK_BLOCKED \<and> blockcause tcb_blocked = BLOCK_CAUSE 1 \<and>
   unat (priority tcb_blocked) < RTOS_PRIORITY_COUNT env0 \<and>
   length (ready_tasks state_blocked) = RTOS_PRIORITY_COUNT env0 \<and>
   distinct (blocked_tasks state_blocked) \<and>
   (\<exists>s'. unblock_task env0 state_blocked 0x300 (BLOCK_CAUSE 1) = Inr s' \<and>
         blocked_tasks s' = remove1 0x300 (blocked_tasks state_blocked) \<and>
         ready_tasks s' ! unat (priority tcb_blocked) =
           ready_tasks state_blocked ! unat (priority tcb_blocked) @ [0x300])"
proof -
  have a: "(0x300 :: addr) \<noteq> 0" "tcbs state_blocked 0x300 = Some tcb_blocked"
    by (simp_all add: ex_defs)
  have b: "blockcause tcb_blocked \<noteq> BLOCK_CAUSE 2"
    "state tcb_blocked = TASK_BLOCKED" "blockcause tcb_blocked = BLOCK_CAUSE 1"
    "unat (priority tcb_blocked) < RTOS_PRIORITY_COUNT env0"
    "length (ready_tasks state_blocked) = RTOS_PRIORITY_COUNT env0"
    "distinct (blocked_tasks state_blocked)"
    by (simp_all add: ex_defs)
  from a b unblock_task_guarded [OF a, of "BLOCK_CAUSE 2" env0]
    unblock_task_guarded [OF a, of "BLOCK_CAUSE 1" env0]
  show ?thesis by blast
qed

text \<open>
  C8 (amended). The stack initializer rounds the pointer down to a 4-byte boundary and
  writes a frame of 17 words, from the highest address down: the status word with the
  Thumb bit (bit 24) set, the entry function as return address, the exit trampoline in
  the link-register slot, four scratch-register sentinels, the argument in the slot of
  register 0, the exception-return value 0xFFFFFFFD, and eight callee-saved sentinels.
  The returned pointer is the address of the last, lowest word written, 64 bytes below
  the aligned pointer; no other word of memory changes.
\<close>

theorem initialize_task_stack_frame:
  "unat (align_stack_ptr sp) = 4 * (unat sp div 4) \<and>
   snd (initialize_task_stack env m sp return_pc arg0) = align_stack_ptr sp - 64 \<and>
   map (fst (initialize_task_stack env m sp return_pc arg0))
       (frame_addrs (align_stack_ptr sp) 17) =
     [INITIAL_xPSR, return_pc, task_exithandler env,
      0x12121212, 0x03030303, 0x02020202, 0x01010101,
      arg0, INITIAL_EXEC_RETURN,
      0x11111111, 0x10101010, 0x09090909, 0x08080808,
      0x07070707, 0x06060606, 0x05050505, 0x04040404] \<and>
   bit INITIAL_xPSR 24 \<and> INITIAL_EXEC_RETURN = 0xFFFFFFFD \<and>
   last (frame_addrs (align_stack_ptr sp) 17) =
     snd (initialize_task_stack env m sp return_pc arg0) \<and>
   (\<forall>x. x \<notin> set (frame_addrs (align_stack_ptr sp) 17) \<longrightarrow>
        fst (initialize_task_stack env m sp return_pc arg0) x = m x)"
proof -
  let ?a = "align_stack_ptr sp"
  let ?r = "initialize_task_stack env m sp return_pc arg0"
  have u: "unat ?a = 4 * (unat sp div 4)"
    by (rule align_stack_ptr_unat)
  have r: "snd ?r = ?a - 64"
    by (simp add: initialize_task_stack_def store_dec_def)
  have v: "map (fst ?r) (frame_addrs ?a 17) =
           [INITIAL_xPSR, return_pc, task_exithandler env,
            0x12121212, 0x03030303, 0x02020202, 0x01010101,
            arg0, INITIAL_EXEC_RETURN,
            0x11111111, 0x10101010, 0x09090909, 0x08080808,
            0x07070707, 0x06060606, 0x05050505, 0x04040404]"
    unfolding frame_addrs_17
    by (simp add: initialize_task_stack_def store_dec_def)
  have o: "\<forall>x. x \<notin> set (frame_addrs ?a 17) \<longrightarrow> fst ?r x = m x"
    unfolding frame_addrs_17
    by (simp add: initialize_task_stack_def store_dec_def)
  have l: "last (frame_addrs ?a 17) = ?a - 64"
    unfolding frame_addrs_17 by simp
  from u r v o l INITIAL_xPSR_thumb show ?thesis
    by (simp add: INITIAL_EXEC_RETURN_def)
qed



text \<open>Witness of C8: the theorem at an example stack pointer.\<close>

theorem initialize_task_stack_frame_witness:
  "(0x20001004 :: addr) \<notin> set (frame_addrs (align_stack_ptr 0x20001003) 17) \<and>
   fst (initialize_task_stack env0 zero_mem 0x20001003 0x08000101 0x2A) 0x20001004 =
     zero_mem 0x20001004 \<and>
   snd (initialize_task_stack env0 zero_mem 0x20001003 0x08000101 0x2A) =
     align_stack_ptr 0x20001003 - 64"
proof -
  have a: "(0x20001004 :: addr) \<notin> set (frame_addrs (align_stack_ptr 0x20001003) 17)"
    by (simp add: align_ex frame_addrs_17)
  from a initialize_task_stack_frame [of "0x20001003" env0 zero_mem "0x08000101" "0x2A"]
  show ?thesis by blast
qed

text \<open>
  C8 as stated fails in the size of the frame: a 17th word is written, 16 words below
  the aligned pointer, outside a frame of 16 words, and the returned pointer is its
  address.
\<close>

theorem initialize_task_stack_frame_counterexample:
  "align_stack_ptr 0x20001003 = 0x20001000 \<and>
   snd (initialize_task_stack env0 zero_mem 0x20001003 0x08000101 0x2A) = 0x20001000 - 4 * 16 \<and>
   snd (initialize_task_stack env0 zero_mem 0x20001003 0x08000101 0x2A)
     \<notin> set (frame_addrs 0x20001000 16) \<and>
   fst (initialize_task_stack env0 zero_mem 0x20001003 0x08000101 0x2A) (0x20001000 - 4 * 16) =
     0x04040404 \<and>
   zero_mem (0x20001000 - 4 * 16) = 0"
  by (simp add: align_ex initialize_task_stack_def store_dec_def frame_addrs_def upt_rec
      zero_mem_def)

text \<open>
  C5, at the priority equal to the priority count. With RTOS_PRIORITY_COUNT = 7 and a
  configured priority of 7 the check cfg->task_priority > RTOS_PRIORITY_COUNT lets the
  call through: task_create does not return null but goes on to index ready_tasks[7],
  outside the array.
\<close>

theorem task_create_priority_count:
  "task_priority (cfg_prio 7) = of_nat (RTOS_PRIORITY_COUNT env0) \<and>
   task_create env0 state0 0x08000101 0x2A (Some (cfg_prio 7)) 0x400 tcb0 0x2000 =
     Inl OutOfBounds"
  by (simp add: create_defs ex_defs)


text \<open>
  C6, on the path of an invalid priority. With RTOS_PRIORITY_COUNT = 7 and a configured
  priority of 8 task_create returns null, and the control block it allocated at 0x400
  is still allocated on return.
\<close>

theorem task_create_priority_leak:
  "task_priority (cfg_prio 8) > of_nat (RTOS_PRIORITY_COUNT env0) \<and>
   tcbs state0 0x400 = None \<and>
   (case task_create env0 state0 0x08000101 0x2A (Some (cfg_prio 8)) 0x400 tcb0 0x2000 of
      Inl f \<Rightarrow> False
    | Inr (h, s') \<Rightarrow> h = 0 \<and> tcbs s' 0x400 = Some tcb0)"
  by (simp add: create_defs ex_defs)


text \<open>
  C9 (amended). enable_systick computes the reload value as the AHB clock frequency
  divided by 8 and then by the tick frequency; when it exceeds the 24-bit limit it logs
  at error level and exits with the bad-parameter code ERR_BADPARAM, otherwise it programs
  the reload register with the value minus 1 and enables the tick. rtos_start logs at
  error level and exits with the scheduler-error code ERR_SCHEDULER when the idle task
  cannot be created, and when the supervisor call returns.
\<close>

theorem systick_and_start_exits:
  "(SYSTICK_FREQ env \<noteq> 0 \<longrightarrow>
      unat (drop_bit 3 hclk div SYSTICK_FREQ env) =
        (unat hclk div 8) div unat (SYSTICK_FREQ env) \<and>
      (if unat hclk div 8 div unat (SYSTICK_FREQ env) > 2 ^ 24 - 1
       then enable_systick env hclk s =
              Exit ERR_BADPARAM (s\<lparr>trace := trace s @
                [Log LOG_ERROR TAG ''Oversized systick reload value'']\<rparr>)
       else enable_systick env hclk s =
              Return (s\<lparr>SysTick_LOAD := drop_bit 3 hclk div SYSTICK_FREQ env - 1,
                        SysTick_CTRL := SysTick_CTRL s OR
                          (SysTick_CTRL_TICKINT_Msk env OR SysTick_CTRL_ENABLE_Msk env)\<rparr>))) \<and>
   (task_create env s (idle_entry env) 0
        (Some ((DEFAULT_TASK_CONFIG env)\<lparr>task_name := Some IDLE_TASK_NAME,
                 task_priority := IDLE_TASK_PRIORITY env,
                 task_stacksize := IDLE_TASK_STACK_SIZE env\<rparr>))
        malloc_tcb raw malloc_stack = Inr (h, s1) \<longrightarrow>
      (h = 0 \<longrightarrow>
         rtos_start env s malloc_tcb raw malloc_stack svc_returns =
           Exit ERR_SCHEDULER (s1\<lparr>trace := trace s1 @
             [Log LOG_ERROR TAG ''Could not create idle task'']\<rparr>)) \<and>
      (h \<noteq> 0 \<and> svc_returns \<longrightarrow>
         rtos_start env s malloc_tcb raw malloc_stack svc_returns =
           Exit ERR_SCHEDULER (s1\<lparr>trace := trace s1 @
             [SVCall, Log LOG_ERROR TAG ''Scheduler returned without starting RTOS'']\<rparr>)) \<and>
      (h \<noteq> 0 \<and> \<not> svc_returns \<longrightarrow>
         rtos_start env s malloc_tcb raw malloc_stack svc_returns =
           Started (s1\<lparr>trace := trace s1 @ [SVCall]\<rparr>)))"
proof -
  have lim: "unat SysTick_LOAD_RELOAD_Msk = 2 ^ 24 - 1"
    by (simp add: SysTick_LOAD_RELOAD_Msk_def)
  have gt: "(drop_bit 3 hclk div SYSTICK_FREQ env > SysTick_LOAD_RELOAD_Msk) \<longleftrightarrow>
            (unat hclk div 8 div unat (SYSTICK_FREQ env) > 2 ^ 24 - 1)"
    unfolding word_less_nat_alt lim reload_unat ..
  show ?thesis
    using gt
    by (simp add: reload_unat enable_systick_def rtos_start_def Let_def LOG_def
        trigger_svcall_def)
qed



text \<open>Witness of C9: the theorem at example inputs.\<close>

theorem systick_and_start_exits_witness:
  "SYSTICK_FREQ env_slow_tick \<noteq> 0 \<and>
   unat (160000000 :: 32 word) div 8 div unat (SYSTICK_FREQ env_slow_tick) > 2 ^ 24 - 1 \<and>
   enable_systick env_slow_tick 160000000 state0 =
     Exit ERR_BADPARAM (state0\<lparr>trace := trace state0 @
       [Log LOG_ERROR TAG ''Oversized systick reload value'']\<rparr>) \<and>
   rtos_start env0 state0 0 tcb0 0 False =
     Exit ERR_SCHEDULER (state0\<lparr>trace := trace state0 @
       [Log LOG_ERROR TAG ''Could not create idle task'']\<rparr>) \<and>
   (\<exists>s1. rtos_start env0 state0 0x400 tcb0 0x2000 True =
     Exit ERR_SCHEDULER (s1\<lparr>trace := trace s1 @
       [SVCall, Log LOG_ERROR TAG ''Scheduler returned without starting RTOS'']\<rparr>))"
proof -
  let ?cfg = "Some ((DEFAULT_TASK_CONFIG env0)\<lparr>task_name := Some IDLE_TASK_NAME,
                 task_priority := IDLE_TASK_PRIORITY env0,
                 task_stacksize := IDLE_TASK_STACK_SIZE env0\<rparr>)"
  have a: "SYSTICK_FREQ env_slow_tick \<noteq> 0"
    by (simp add: env_slow_tick_def env0_def)
  have b: "unat (160000000 :: 32 word) div 8 div unat (SYSTICK_FREQ env_slow_tick) > 2 ^ 24 - 1"
    by (simp add: env_slow_tick_def env0_def)
  have c: "task_create env0 state0 (idle_entry env0) 0 ?cfg 0 tcb0 0 = Inr (0, state0)"
    by (simp add: task_create_def env0_def)
  have "\<exists>s1. task_create env0 state0 (idle_entry env0) 0 ?cfg 0x400 tcb0 0x2000 =
          Inr (0x400, s1)"
    by (simp add: create_defs ex_defs)
  then obtain s1 where
    d: "task_create env0 state0 (idle_entry env0) 0 ?cfg 0x400 tcb0 0x2000 = Inr (0x400, s1)" ..
  have e: "(0x400 :: addr) \<noteq> 0" by simp
  from a b c d e
    systick_and_start_exits [where env = env_slow_tick and hclk = 160000000 and s = state0]
    systick_and_start_exits [where env = env0 and s = state0 and malloc_tcb = 0 and raw = tcb0
      and malloc_stack = 0 and h = 0 and ?s1.0 = state0 and svc_returns = False]
    systick_and_start_exits [where env = env0 and s = state0 and malloc_tcb = "0x400"
      and raw = tcb0 and malloc_stack = "0x2000" and h = "0x400" and ?s1.0 = s1
      and svc_returns = True]
  show ?thesis by auto
qed

text \<open>
  C9 as stated fails for enable_systick: at 160 MHz and a tick of 1 Hz the reload value
  is 20000000, above the 24-bit limit, and the exit status is ERR_BADPARAM, not
  ERR_SCHEDULER.
\<close>

theorem enable_systick_exit_counterexample:
  "enable_systick env_slow_tick 160000000 state0 =
     Exit ERR_BADPARAM (LOG LOG_ERROR TAG ''Oversized systick reload value'' state0) \<and>
   ERR_BADPARAM \<noteq> ERR_SCHEDULER"
  by (simp add: enable_systick_def env_slow_tick_def env0_def SysTick_LOAD_RELOAD_Msk_def
      Let_def drop_bit_eq_div)


end
